theory Spec2Isabelle
  imports Main "HOL-Library.Word"
begin

section \<open>JavaScript data\<close>

text \<open>
  \<^verbatim>\<open>bindings/nodejs/lib/MessageHandler.ts\<close> moves plain JavaScript data across the
  boundary to the native engine. The data the file handles is modelled as follows.

  \<^item> A value is a primitive or a reference to an object on the heap. The numbers of
    the model are the integers from \<open>-2^53\<close> to \<open>2^53 - 1\<close> (\<open>Integer w\<close> is the integer
    \<open>sint w\<close>; each of them is a number of JavaScript, and \<open>Number::toString\<close> writes
    it with all its digits), the negative zero, \<open>NaN\<close> and the two infinities. Numbers
    with a fraction and numbers beyond that range are floating point and have no value
    in the model. A string is a list of code units below 256.
  \<^item> A heap object is a plain object (its own enumerable string-keyed properties, in
    the order the object enumerates them, with distinct keys), an array, or a function
    (\<open>Function k\<close>: the k-th function; only its identity matters here). Getters,
    \<open>toJSON\<close> methods, prototypes with data, symbols and BigInts are outside the model.
  \<^item> The heap is the list of the objects allocated so far; the address of an object is
    its index.
\<close>

type_synonym addr = nat

datatype number =
    Integer "54 word"
  | MinusZero
  | NaN
  | Infinity
  | MinusInfinity

datatype jsval =
    Undefined
  | Null
  | Boolean bool
  | Number number
  | String string
  | Ref addr

datatype obj =
    Object "(string \<times> jsval) list"
  | Array "jsval list"
  | Function nat

type_synonym heap = "obj list"

text \<open>
  The structure of a value: what is reachable from it through the heap, with the
  references followed. It is what \<open>JSON.stringify\<close> walks over, and what a reader of
  the text rebuilds.
\<close>

datatype tree =
    TUndefined
  | TNull
  | TBoolean bool
  | TNumber number
  | TString string
  | TArray "tree list"
  | TObject "(string \<times> tree) list"
  | TFunction

datatype error =
    TypeError string
  | NativeError string

subsection \<open>Reading the heap\<close>

text \<open>
  \<open>sequence\<close> collects the results of a list of fallible steps: the first failure is
  the failure of the whole.
\<close>

fun sequence :: "'a option list \<Rightarrow> 'a list option" where
  "sequence [] = Some []"
| "sequence (None # _) = None"
| "sequence (Some x # xs) = (case sequence xs of None \<Rightarrow> None | Some ys \<Rightarrow> Some (x # ys))"

text \<open>
  \<open>structure h stack v\<close> follows the references of \<open>v\<close>. \<open>stack\<close> holds the addresses
  of the objects being walked (the ancestors of \<open>v\<close>): \<open>JSON.stringify\<close> keeps the same
  stack and throws a TypeError ("Converting circular structure to JSON") when an object
  is met again below itself; the result is then \<open>None\<close>. A function is never walked. An
  address beyond the heap does not occur in a running program; it gives \<open>None\<close> too.
\<close>

function "structure" :: "heap \<Rightarrow> addr list \<Rightarrow> jsval \<Rightarrow> tree option" where
  "structure h stack Undefined = Some TUndefined"
| "structure h stack Null = Some TNull"
| "structure h stack (Boolean b) = Some (TBoolean b)"
| "structure h stack (Number n) = Some (TNumber n)"
| "structure h stack (String s) = Some (TString s)"
| "structure h stack (Ref a) =
     (if a \<in> set stack \<or> length h \<le> a then None
      else case h ! a of
        Function k \<Rightarrow> Some TFunction
      | Array vs \<Rightarrow>
          map_option TArray (sequence (map (\<lambda>v. structure h (a # stack) v) vs))
      | Object ps \<Rightarrow>
          map_option TObject
            (sequence (map (\<lambda>p. map_option (Pair (fst p)) (structure h (a # stack) (snd p))) ps)))"
  by pat_completeness auto
termination
proof -
  have shrink: "card ({..<n} - set (a # stack)) < card ({..<n} - set stack)"
    if fresh: "\<not> (a \<in> set stack \<or> n \<le> a)" for a n :: nat and stack
  proof -
    have "a \<in> {..<n} - set stack"
      using fresh by simp
    moreover have "{..<n} - set (a # stack) = ({..<n} - set stack) - {a}"
      by auto
    moreover have "finite ({..<n} - set stack)"
      by simp
    ultimately show ?thesis
      by (simp only: card_Diff1_less)
  qed
  show ?thesis
    apply (relation "measure (\<lambda>(h, stack, v). card ({..<length h} - set stack))")
      apply simp
     apply (simp only: in_measure prod.case)
     apply (erule shrink)
    apply (simp only: in_measure prod.case)
    apply (erule shrink)
    done
qed

section \<open>JSON.stringify\<close>

text \<open>
  \<open>JSON.stringify(value)\<close> with no replacer and no indentation, after ECMA-262
  (\<open>QuoteJSONString\<close>, \<open>Number::toString\<close>, \<open>SerializeJSONProperty\<close>,
  \<open>SerializeJSONArray\<close>, \<open>SerializeJSONObject\<close>).
\<close>

definition hex_digit :: "nat \<Rightarrow> char" where
  "hex_digit d = (if d < 10 then char_of (48 + d) else char_of (87 + d))"

text \<open>\<open>\uXXXX\<close> with lower-case hexadecimal digits; the code unit is below 256.\<close>

definition UnicodeEscape :: "char \<Rightarrow> string" where
  "UnicodeEscape c =
     [CHR 0x5C, CHR ''u'', CHR ''0'', CHR ''0'',
      hex_digit ((of_char c :: nat) div 16), hex_digit ((of_char c :: nat) mod 16)]"

definition QuoteJSONChar :: "char \<Rightarrow> string" where
  "QuoteJSONChar c =
     (if c = CHR 0x08 then [CHR 0x5C, CHR ''b'']
      else if c = CHR 0x09 then [CHR 0x5C, CHR ''t'']
      else if c = CHR 0x0A then [CHR 0x5C, CHR ''n'']
      else if c = CHR 0x0C then [CHR 0x5C, CHR ''f'']
      else if c = CHR 0x0D then [CHR 0x5C, CHR ''r'']
      else if c = CHR 0x22 then [CHR 0x5C, CHR 0x22]
      else if c = CHR 0x5C then [CHR 0x5C, CHR 0x5C]
      else if (of_char c :: nat) < 32 then UnicodeEscape c
      else [c])"

definition QuoteJSONString :: "string \<Rightarrow> string" where
  "QuoteJSONString s = CHR 0x22 # concat (map QuoteJSONChar s) @ [CHR 0x22]"

text \<open>The decimal digits of an integer that is not negative.\<close>

function digits :: "int \<Rightarrow> string" where
  "digits n = (if n < 10 then [char_of (48 + n)] else digits (n div 10) @ [char_of (48 + n mod 10)])"
  by pat_completeness auto
termination
  by (relation "measure nat") simp_all

declare digits.simps [simp del]

definition IntegerToString :: "int \<Rightarrow> string" where
  "IntegerToString n = (if n < 0 then CHR ''-'' # digits (- n) else digits n)"

text \<open>
  \<open>Number::toString\<close> on the numbers of the model. An integer from \<open>-2^53\<close> to
  \<open>2^53 - 1\<close> is written in full: it has at most 16 digits, and no shorter decimal
  denotes the same number.
\<close>

fun NumberToString :: "number \<Rightarrow> string" where
  "NumberToString (Integer w) = IntegerToString (sint w)"
| "NumberToString MinusZero = ''0''"
| "NumberToString NaN = ''NaN''"
| "NumberToString Infinity = ''Infinity''"
| "NumberToString MinusInfinity = ''-Infinity''"

fun finite_number :: "number \<Rightarrow> bool" where
  "finite_number (Integer w) = True"
| "finite_number MinusZero = True"
| "finite_number NaN = False"
| "finite_number Infinity = False"
| "finite_number MinusInfinity = False"

text \<open>The members or elements collected in \<open>partial\<close> are joined with commas.\<close>

fun join :: "string list \<Rightarrow> string" where
  "join [] = []"
| "join [x] = x"
| "join (x # y # ys) = x @ CHR '','' # join (y # ys)"

text \<open>
  \<open>SerializeJSONProperty\<close> gives \<open>None\<close> for \<open>undefined\<close>: that is its result on
  \<open>undefined\<close> itself and on a function. A number that is not finite is written
  \<open>null\<close>. \<open>SerializeJSONArray\<close> and
  \<open>SerializeJSONObject\<close> give the list \<open>partial\<close>: an array element without a
  serialization becomes \<open>null\<close>, an object member without one is left out.
\<close>

fun SerializeJSONProperty :: "tree \<Rightarrow> string option"
  and SerializeJSONArray :: "tree list \<Rightarrow> string list"
  and SerializeJSONObject :: "(string \<times> tree) list \<Rightarrow> string list"
where
  "SerializeJSONProperty TUndefined = None"
| "SerializeJSONProperty TFunction = None"
| "SerializeJSONProperty TNull = Some ''null''"
| "SerializeJSONProperty (TBoolean b) = Some (if b then ''true'' else ''false'')"
| "SerializeJSONProperty (TNumber x) =
     Some (if finite_number x then NumberToString x else ''null'')"
| "SerializeJSONProperty (TString s) = Some (QuoteJSONString s)"
| "SerializeJSONProperty (TArray xs) = Some (CHR ''['' # join (SerializeJSONArray xs) @ '']'')"
| "SerializeJSONProperty (TObject ps) = Some (CHR ''{'' # join (SerializeJSONObject ps) @ ''}'')"
| "SerializeJSONArray [] = []"
| "SerializeJSONArray (x # xs) =
     (case SerializeJSONProperty x of None \<Rightarrow> ''null'' | Some s \<Rightarrow> s) # SerializeJSONArray xs"
| "SerializeJSONObject [] = []"
| "SerializeJSONObject ((k, v) # ps) =
     (case SerializeJSONProperty v of
        None \<Rightarrow> SerializeJSONObject ps
      | Some s \<Rightarrow> (QuoteJSONString k @ CHR '':'' # s) # SerializeJSONObject ps)"

text \<open>
  \<open>JSON.stringify\<close> on a value of the heap: a TypeError on a circular structure,
  \<open>undefined\<close> where there is no serialization, the text otherwise.
\<close>

definition JSON_stringify :: "heap \<Rightarrow> jsval \<Rightarrow> error + jsval" where
  "JSON_stringify h v =
     (case structure h [] v of
        None \<Rightarrow> Inl (TypeError ''Converting circular structure to JSON'')
      | Some t \<Rightarrow>
          Inr (case SerializeJSONProperty t of None \<Rightarrow> Undefined | Some s \<Rightarrow> String s))"

section \<open>Reading a JSON text\<close>

text \<open>
  The file has no deserializer of its own: the reader of the texts it sends is the
  native engine. \<open>JSON_parse\<close> reads a JSON text as \<open>JSON.parse\<close> does, by the JSON
  grammar (ECMA-404), with three results:
  \<^item> \<open>Inr t\<close>: the text is read, and \<open>t\<close> is what it denotes;
  \<^item> \<open>Inl Malformed\<close>: the text is no JSON text (\<open>JSON.parse\<close> throws a SyntaxError);
  \<^item> \<open>Inl Outside\<close>: the model does not say what is read. That is so where the text
    holds a number with a fraction or an exponent, an integer beyond the range of the
    model, or a \<open>\uXXXX\<close> escape of a code unit above 255, and where the fuel that
    bounds the recursion runs out (\<open>JSON_parse\<close> gives more fuel than the text has
    characters).
\<close>

datatype reject =
    Malformed
  | Outside

definition is_ws :: "char \<Rightarrow> bool" where
  "is_ws c \<longleftrightarrow> c = CHR '' '' \<or> c = CHR 0x09 \<or> c = CHR 0x0A \<or> c = CHR 0x0D"

definition skip_ws :: "string \<Rightarrow> string" where
  "skip_ws s = dropWhile is_ws s"

definition is_digit :: "char \<Rightarrow> bool" where
  "is_digit c \<longleftrightarrow> 48 \<le> (of_char c :: int) \<and> (of_char c :: int) \<le> 57"

definition digit_val :: "char \<Rightarrow> int" where
  "digit_val c = of_char c - 48"

definition decimal :: "string \<Rightarrow> int" where
  "decimal s = foldl (\<lambda>n d. 10 * n + digit_val d) 0 s"

definition hex_val :: "char \<Rightarrow> nat option" where
  "hex_val c =
     (let n = of_char c :: nat in
      if 48 \<le> n \<and> n \<le> 57 then Some (n - 48)
      else if 97 \<le> n \<and> n \<le> 102 then Some (n - 87)
      else if 65 \<le> n \<and> n \<le> 70 then Some (n - 55)
      else None)"

definition hex4 :: "char \<Rightarrow> char \<Rightarrow> char \<Rightarrow> char \<Rightarrow> reject + char" where
  "hex4 a b c d =
     (case (hex_val a, hex_val b, hex_val c, hex_val d) of
        (Some p, Some q, Some r, Some s) \<Rightarrow>
          (let n = ((p * 16 + q) * 16 + r) * 16 + s in
           if n < 256 then Inr (char_of n) else Inl Outside)
      | _ \<Rightarrow> Inl Malformed)"

definition unescape :: "char \<Rightarrow> char option" where
  "unescape e =
     (if e = CHR 0x22 then Some (CHR 0x22)
      else if e = CHR 0x5C then Some (CHR 0x5C)
      else if e = CHR ''/'' then Some (CHR ''/'')
      else if e = CHR ''b'' then Some (CHR 0x08)
      else if e = CHR ''f'' then Some (CHR 0x0C)
      else if e = CHR ''n'' then Some (CHR 0x0A)
      else if e = CHR ''r'' then Some (CHR 0x0D)
      else if e = CHR ''t'' then Some (CHR 0x09)
      else None)"

definition prepend :: "char \<Rightarrow> reject + string \<times> string \<Rightarrow> reject + string \<times> string" where
  "prepend c r = (case r of Inl e \<Rightarrow> Inl e | Inr (s, rest) \<Rightarrow> Inr (c # s, rest))"

text \<open>The characters of a string after its opening quote, up to the closing quote.\<close>

fun parse_chars :: "string \<Rightarrow> reject + string \<times> string" where
  "parse_chars [] = Inl Malformed"
| "parse_chars (c # cs) =
     (if c = CHR 0x22 then Inr ([], cs)
      else if c = CHR 0x5C then
        (case cs of
           [] \<Rightarrow> Inl Malformed
         | e # es \<Rightarrow>
             if e = CHR ''u'' then
               (case es of
                  a # b # x # y # r \<Rightarrow>
                    (case hex4 a b x y of Inl e \<Rightarrow> Inl e | Inr d \<Rightarrow> prepend d (parse_chars r))
                | _ \<Rightarrow> Inl Malformed)
             else
               (case unescape e of
                  None \<Rightarrow> Inl Malformed
                | Some d \<Rightarrow> prepend d (parse_chars es)))
      else if (of_char c :: nat) < 32 then Inl Malformed
      else prepend c (parse_chars cs))"

text \<open>The integer part of a number: \<open>0\<close>, or a digit from 1 to 9 and more digits.\<close>

definition parse_digits :: "string \<Rightarrow> (int \<times> string) option" where
  "parse_digits s =
     (case s of
        [] \<Rightarrow> None
      | c # cs \<Rightarrow>
          if c = CHR ''0'' then Some (0, cs)
          else if is_digit c then Some (decimal (takeWhile is_digit s), dropWhile is_digit s)
          else None)"

text \<open>
  A number: a sign and the integer part. What follows with a point or an exponent is a
  number outside the model, and so is an integer below \<open>-2^53\<close> or from \<open>2^53\<close> on.
  \<open>-0\<close> is the negative zero.
\<close>

definition parse_number :: "string \<Rightarrow> reject + number \<times> string" where
  "parse_number s =
     (case s of
        [] \<Rightarrow> Inl Malformed
      | c # cs \<Rightarrow>
          (case (if c = CHR ''-'' then parse_digits cs else parse_digits s) of
             None \<Rightarrow> Inl Malformed
           | Some (m, r) \<Rightarrow>
               if r \<noteq> [] \<and> hd r \<in> {CHR ''.'', CHR ''e'', CHR ''E''} then Inl Outside
               else if c = CHR ''-'' \<and> m = 0 then Inr (MinusZero, r)
               else
                 (let n = (if c = CHR ''-'' then - m else m) in
                  if - (2 ^ 53) \<le> n \<and> n < 2 ^ 53 then Inr (Integer (word_of_int n), r)
                  else Inl Outside)))"

text \<open>
  The order in which an object enumerates its properties: the array indices (the
  decimal numerals below \<open>2^32 - 1\<close>) first, in ascending order, then the other keys
  in the order of their definition. \<open>comes_before k q\<close>: a new key \<open>k\<close> goes before the
  key \<open>q\<close> that is there. Defining a property on the object being built: a key that is
  there keeps its place and takes the new value.
\<close>

definition array_index :: "string \<Rightarrow> int option" where
  "array_index k =
     (if k \<noteq> [] \<and> list_all is_digit k \<and> (k = ''0'' \<or> hd k \<noteq> CHR ''0'') \<and>
         decimal k < 4294967295
      then Some (decimal k)
      else None)"

definition comes_before :: "string \<Rightarrow> string \<Rightarrow> bool" where
  "comes_before k q =
     (case array_index k of
        None \<Rightarrow> False
      | Some i \<Rightarrow> (case array_index q of None \<Rightarrow> True | Some j \<Rightarrow> i < j))"

fun define_property :: "string \<Rightarrow> tree \<Rightarrow> (string \<times> tree) list \<Rightarrow> (string \<times> tree) list" where
  "define_property k v [] = [(k, v)]"
| "define_property k v (p # ps) =
     (if fst p = k then (k, v) # ps
      else if comes_before k (fst p) then (k, v) # p # ps
      else p # define_property k v ps)"

fun parse_value :: "nat \<Rightarrow> string \<Rightarrow> reject + tree \<times> string"
  and parse_elements :: "nat \<Rightarrow> tree list \<Rightarrow> string \<Rightarrow> reject + tree list \<times> string"
  and parse_members ::
    "nat \<Rightarrow> (string \<times> tree) list \<Rightarrow> string \<Rightarrow> reject + (string \<times> tree) list \<times> string"
where
  "parse_value 0 s = Inl Outside"
| "parse_value (Suc n) s =
     (case skip_ws s of
        [] \<Rightarrow> Inl Malformed
      | c # cs \<Rightarrow>
          if c = CHR ''['' then
            (case skip_ws cs of
               [] \<Rightarrow> Inl Malformed
             | d # ds \<Rightarrow>
                 if d = CHR '']'' then Inr (TArray [], ds)
                 else map_sum id (apfst TArray) (parse_elements n [] cs))
          else if c = CHR ''{'' then
            (case skip_ws cs of
               [] \<Rightarrow> Inl Malformed
             | d # ds \<Rightarrow>
                 if d = CHR ''}'' then Inr (TObject [], ds)
                 else map_sum id (apfst TObject) (parse_members n [] cs))
          else if c = CHR 0x22 then map_sum id (apfst TString) (parse_chars cs)
          else if c = CHR ''n'' then
            (if take 3 cs = ''ull'' then Inr (TNull, drop 3 cs) else Inl Malformed)
          else if c = CHR ''t'' then
            (if take 3 cs = ''rue'' then Inr (TBoolean True, drop 3 cs) else Inl Malformed)
          else if c = CHR ''f'' then
            (if take 4 cs = ''alse'' then Inr (TBoolean False, drop 4 cs) else Inl Malformed)
          else map_sum id (apfst TNumber) (parse_number (c # cs)))"
| "parse_elements 0 acc s = Inl Outside"
| "parse_elements (Suc n) acc s =
     (case parse_value n s of
        Inl e \<Rightarrow> Inl e
      | Inr (v, r) \<Rightarrow>
          (case skip_ws r of
             [] \<Rightarrow> Inl Malformed
           | c # cs \<Rightarrow>
               if c = CHR '','' then parse_elements n (acc @ [v]) cs
               else if c = CHR '']'' then Inr (acc @ [v], cs)
               else Inl Malformed))"
| "parse_members 0 acc s = Inl Outside"
| "parse_members (Suc n) acc s =
     (case skip_ws s of
        [] \<Rightarrow> Inl Malformed
      | c # cs \<Rightarrow>
          if c = CHR 0x22 then
            (case parse_chars cs of
               Inl e \<Rightarrow> Inl e
             | Inr (k, r) \<Rightarrow>
                 (case skip_ws r of
                    [] \<Rightarrow> Inl Malformed
                  | d # ds \<Rightarrow>
                      if d = CHR '':'' then
                        (case parse_value n ds of
                           Inl e \<Rightarrow> Inl e
                         | Inr (v, r') \<Rightarrow>
                             (case skip_ws r' of
                                [] \<Rightarrow> Inl Malformed
                              | e # es \<Rightarrow>
                                  if e = CHR '','' then parse_members n (define_property k v acc) es
                                  else if e = CHR ''}'' then Inr (define_property k v acc, es)
                                  else Inl Malformed))
                      else Inl Malformed))
          else Inl Malformed)"

definition JSON_parse :: "string \<Rightarrow> reject + tree" where
  "JSON_parse s =
     (case parse_value (Suc (length s)) s of
        Inl e \<Rightarrow> Inl e
      | Inr (t, rest) \<Rightarrow> if skip_ws rest = [] then Inr t else Inl Malformed)"

text \<open>
  The values a reader rebuilds exactly: no \<open>undefined\<close> and no function anywhere, no
  number but the integers, and the keys of an object distinct and in the order in
  which an object enumerates them (as they are in every object of a running program).
\<close>

definition enumeration_order :: "string list \<Rightarrow> bool" where
  "enumeration_order ks = sorted_wrt (\<lambda>a b. \<not> comes_before b a) ks"

fun is_integer :: "number \<Rightarrow> bool" where
  "is_integer (Integer w) = True"
| "is_integer MinusZero = False"
| "is_integer NaN = False"
| "is_integer Infinity = False"
| "is_integer MinusInfinity = False"

fun is_json :: "tree \<Rightarrow> bool" where
  "is_json TUndefined = False"
| "is_json TFunction = False"
| "is_json TNull = True"
| "is_json (TBoolean b) = True"
| "is_json (TNumber x) = is_integer x"
| "is_json (TString s) = True"
| "is_json (TArray xs) = (\<forall>x \<in> set xs. is_json x)"
| "is_json (TObject ps) =
     (distinct (map fst ps) \<and> enumeration_order (map fst ps) \<and> (\<forall>p \<in> set ps. is_json (snd p)))"

text \<open>What may follow a value inside a text: nothing, or a comma or closing bracket.\<close>

definition delimited :: "string \<Rightarrow> bool" where
  "delimited r \<longleftrightarrow> r = [] \<or> hd r \<in> {CHR '','', CHR '']'', CHR ''}''}"

definition value_start :: "char \<Rightarrow> bool" where
  "value_start c \<longleftrightarrow>
     c \<in> {CHR ''['', CHR ''{'', CHR 0x22, CHR ''n'', CHR ''t'', CHR ''f'', CHR ''-''} \<or> is_digit c"

section \<open>The native bindings\<close>

text \<open>
  \<^verbatim>\<open>import { sendMessageAsync, messageHandlerNew, listen } from './bindings'\<close>:
  the three entry points of the native engine are not part of the file; they are the
  parameters of the model. An entry point works on the state of the engine (\<open>'e\<close>),
  which the JavaScript side cannot see, and returns or throws. The handle it gives out
  (\<open>'h\<close>) is opaque. \<open>sendMessageAsync\<close> returns a promise, which is modelled by the
  way it settles. \<open>listen\<close> receives two objects, the array of event types and the
  callback, and may read the heap.
\<close>

datatype 'a promise =
    Fulfilled 'a
  | Rejected error

record ('h, 'e) bindings =
  messageHandlerNew :: "jsval \<Rightarrow> 'e \<Rightarrow> (error + 'h) \<times> 'e"
  sendMessageAsync :: "jsval \<Rightarrow> 'h \<Rightarrow> 'e \<Rightarrow> (error + string promise) \<times> 'e"
  listen :: "heap \<Rightarrow> jsval \<Rightarrow> jsval \<Rightarrow> 'h \<Rightarrow> 'e \<Rightarrow> (error + jsval) \<times> 'e"

text \<open>
  The calls made to the entry points, with their arguments, in order. The state keeps
  them, so that what the file passes to the engine, and how often, can be stated.
\<close>

datatype 'h call =
    MessageHandlerNew jsval
  | SendMessageAsync jsval 'h
  | Listen jsval jsval 'h

text \<open>
  \<^verbatim>\<open>export class MessageHandler { messageHandler: any ... }\<close>: an instance has one
  field. An instance exists for the program once its constructor has returned.
\<close>

record 'h MessageHandler =
  messageHandler :: 'h

text \<open>
  The state of the program: the heap of plain objects, the instances of the class
  (\<open>this\<close> is an index into them), the state of the native engine and the calls made
  to it so far.
\<close>

record ('h, 'e) world =
  heap :: heap
  instances :: "'h MessageHandler list"
  engine :: 'e
  calls :: "'h call list"

text \<open>
  Calling an entry point: it runs on the state of the engine, and the call is recorded.
  The objects of the heap and the instances are out of its reach.
\<close>

definition call_messageHandlerNew ::
  "('h, 'e) bindings \<Rightarrow> jsval \<Rightarrow> ('h, 'e) world \<Rightarrow> (error + 'h) \<times> ('h, 'e) world" where
  "call_messageHandlerNew B options w =
     (case messageHandlerNew B options (engine w) of
        (r, e') \<Rightarrow> (r, w\<lparr>engine := e', calls := calls w @ [MessageHandlerNew options]\<rparr>))"

definition call_sendMessageAsync ::
  "('h, 'e) bindings \<Rightarrow> jsval \<Rightarrow> 'h \<Rightarrow> ('h, 'e) world \<Rightarrow>
   (error + string promise) \<times> ('h, 'e) world" where
  "call_sendMessageAsync B message handler w =
     (case sendMessageAsync B message handler (engine w) of
        (r, e') \<Rightarrow> (r, w\<lparr>engine := e', calls := calls w @ [SendMessageAsync message handler]\<rparr>))"

definition call_listen ::
  "('h, 'e) bindings \<Rightarrow> jsval \<Rightarrow> jsval \<Rightarrow> 'h \<Rightarrow> ('h, 'e) world \<Rightarrow>
   (error + jsval) \<times> ('h, 'e) world" where
  "call_listen B eventTypes callback handler w =
     (case listen B (heap w) eventTypes callback handler (engine w) of
        (r, e') \<Rightarrow> (r, w\<lparr>engine := e', calls := calls w @ [Listen eventTypes callback handler]\<rparr>))"

section \<open>MessageHandler.ts\<close>

subsection \<open>Property reads, object literals\<close>

definition field :: "(string \<times> jsval) list \<Rightarrow> string \<Rightarrow> jsval" where
  "field ps k = (case map_of ps k of None \<Rightarrow> Undefined | Some v \<Rightarrow> v)"

text \<open>
  \<open>o.k\<close>: a TypeError on \<open>undefined\<close> and \<open>null\<close>; the property of a plain object, or
  \<open>undefined\<close> when it has none of that name. The file reads \<open>storagePath\<close>,
  \<open>clientOptions\<close> and \<open>secretManager\<close> only, which no primitive, array or function
  has.
\<close>

fun Get :: "heap \<Rightarrow> jsval \<Rightarrow> string \<Rightarrow> error + jsval" where
  "Get h Undefined k = Inl (TypeError ''Cannot read properties of undefined'')"
| "Get h Null k = Inl (TypeError ''Cannot read properties of null'')"
| "Get h (Ref a) k =
     (if a < length h then (case h ! a of Object ps \<Rightarrow> Inr (field ps k) | _ \<Rightarrow> Inr Undefined)
      else Inr Undefined)"
| "Get h _ k = Inr Undefined"

text \<open>An object literal allocates a new object: the result is its address.\<close>

definition alloc :: "obj \<Rightarrow> ('h, 'e) world \<Rightarrow> addr \<times> ('h, 'e) world" where
  "alloc ob w = (length (heap w), w\<lparr>heap := heap w @ [ob]\<rparr>)"

subsection \<open>The class\<close>

text \<open>
  \<^verbatim>\<open>
  constructor(options: AccountManagerOptions) {
      const messageOptions = {
          storagePath: options.storagePath,
          clientOptions: JSON.stringify(options.clientOptions),
          secretManager: JSON.stringify(options.secretManager)
      }
      this.messageHandler = messageHandlerNew(JSON.stringify(messageOptions));
  }\<close>
  The result is the new instance, or what was thrown.
\<close>

definition MessageHandler_constructor ::
  "('h, 'e) bindings \<Rightarrow> jsval \<Rightarrow> ('h, 'e) world \<Rightarrow> (error + nat) \<times> ('h, 'e) world" where
  "MessageHandler_constructor B options w =
     (case Get (heap w) options ''storagePath'' of
        Inl e \<Rightarrow> (Inl e, w)
      | Inr storagePath \<Rightarrow>
     (case Get (heap w) options ''clientOptions'' of
        Inl e \<Rightarrow> (Inl e, w)
      | Inr co \<Rightarrow>
     (case JSON_stringify (heap w) co of
        Inl e \<Rightarrow> (Inl e, w)
      | Inr clientOptions \<Rightarrow>
     (case Get (heap w) options ''secretManager'' of
        Inl e \<Rightarrow> (Inl e, w)
      | Inr sm \<Rightarrow>
     (case JSON_stringify (heap w) sm of
        Inl e \<Rightarrow> (Inl e, w)
      | Inr secretManager \<Rightarrow>
     (case alloc (Object [(''storagePath'', storagePath),
                          (''clientOptions'', clientOptions),
                          (''secretManager'', secretManager)]) w of
        (messageOptions, w1) \<Rightarrow>
     (case JSON_stringify (heap w1) (Ref messageOptions) of
        Inl e \<Rightarrow> (Inl e, w1)
      | Inr text \<Rightarrow>
     (case call_messageHandlerNew B text w1 of
        (Inl e, w2) \<Rightarrow> (Inl e, w2)
      | (Inr handler, w2) \<Rightarrow>
          (Inr (length (instances w2)),
           w2\<lparr>instances := instances w2 @ [\<lparr>messageHandler = handler\<rparr>]\<rparr>)))))))))"

text \<open>
  \<^verbatim>\<open>
  async sendMessage(message: __SendMessagePayload__): Promise<string> {
      return sendMessageAsync(JSON.stringify(message), this.messageHandler);
  }\<close>
  The method is \<open>async\<close>: what its body throws rejects the promise it returns, and
  the promise it returns settles as the one of \<open>sendMessageAsync\<close> does. Reading
  \<open>this.messageHandler\<close> where \<open>this\<close> is no instance is a TypeError.
\<close>

definition MessageHandler_sendMessage ::
  "('h, 'e) bindings \<Rightarrow> nat \<Rightarrow> jsval \<Rightarrow> ('h, 'e) world \<Rightarrow> string promise \<times> ('h, 'e) world" where
  "MessageHandler_sendMessage B this message w =
     (case JSON_stringify (heap w) message of
        Inl e \<Rightarrow> (Rejected e, w)
      | Inr text \<Rightarrow>
          if length (instances w) \<le> this
          then (Rejected (TypeError ''Cannot read properties of undefined''), w)
          else
            (case call_sendMessageAsync B text (messageHandler (instances w ! this)) w of
               (Inl e, w') \<Rightarrow> (Rejected e, w')
             | (Inr p, w') \<Rightarrow> (p, w')))"

text \<open>
  \<^verbatim>\<open>
  async callAccountMethod(accountIndex: AccountId, method: __AccountPayloadMethods__): Promise<string> {
      return this.sendMessage({
          cmd: 'CallAccountMethod',
          payload: {
              accountId: accountIndex,
              method,
          }
      })
  }\<close>
  The two object literals are two new objects.
\<close>

definition MessageHandler_callAccountMethod ::
  "('h, 'e) bindings \<Rightarrow> nat \<Rightarrow> jsval \<Rightarrow> jsval \<Rightarrow> ('h, 'e) world \<Rightarrow>
   string promise \<times> ('h, 'e) world" where
  "MessageHandler_callAccountMethod B this accountIndex method w =
     (case alloc (Object [(''accountId'', accountIndex), (''method'', method)]) w of
        (payload, w1) \<Rightarrow>
     (case alloc (Object [(''cmd'', String ''CallAccountMethod''), (''payload'', Ref payload)]) w1 of
        (message, w2) \<Rightarrow>
          MessageHandler_sendMessage B this (Ref message) w2))"

text \<open>
  \<^verbatim>\<open>
  listen(eventTypes: EventType[], callback: (error: Error, result: string) => void): void {
      return listen(eventTypes, callback, this.messageHandler);
  }\<close>
\<close>

definition MessageHandler_listen ::
  "('h, 'e) bindings \<Rightarrow> nat \<Rightarrow> jsval \<Rightarrow> jsval \<Rightarrow> ('h, 'e) world \<Rightarrow>
   (error + jsval) \<times> ('h, 'e) world" where
  "MessageHandler_listen B this eventTypes callback w =
     (if length (instances w) \<le> this
      then (Inl (TypeError ''Cannot read properties of undefined''), w)
      else call_listen B eventTypes callback (messageHandler (instances w ! this)) w)"

section \<open>The configuration and the bundle\<close>

text \<open>
  Modelled from the spec: the type \<open>AccountManagerOptions\<close> of \<^verbatim>\<open>../types\<close>, which is
  not among the sources. "Construction input: a configuration object with fields for
  storage path, client options (serialized to text), and secret-manager configuration
  (serialized to text)." A configuration is a plain object; its \<open>storagePath\<close>, when it
  has one, is a string; its \<open>clientOptions\<close> and \<open>secretManager\<close>, when it has them,
  are data that \<open>JSON.stringify\<close> can walk. It may have any other property.
\<close>

definition AccountManagerOptions :: "heap \<Rightarrow> jsval \<Rightarrow> bool" where
  "AccountManagerOptions h options \<longleftrightarrow>
     (case options of
        Ref a \<Rightarrow>
          a < length h \<and>
          (case h ! a of
             Object ps \<Rightarrow>
               (case field ps ''storagePath'' of
                  String p \<Rightarrow> True
                | Undefined \<Rightarrow> True
                | _ \<Rightarrow> False) \<and>
               structure h [] (field ps ''clientOptions'') \<noteq> None \<and>
               structure h [] (field ps ''secretManager'') \<noteq> None
           | _ \<Rightarrow> False)
      | _ \<Rightarrow> False)"

text \<open>
  The bundle in the words of the spec: "takes a configuration bundle (storage path,
  client options, secret-manager options); serializes the latter two to text; passes
  the bundle to the native engine's constructor entry point". \<open>property_tree h options k\<close> is
  the structure of the property \<open>k\<close> of the configuration, \<open>stringified t\<close> the text of
  \<open>t\<close> as a value (\<open>undefined\<close> when \<open>t\<close> has no text), \<open>bundle_of\<close> the object of the
  three, and \<open>bundle_text\<close> its text.
\<close>

definition property_tree :: "heap \<Rightarrow> jsval \<Rightarrow> string \<Rightarrow> tree" where
  "property_tree h options k =
     (case Get h options k of
        Inl e \<Rightarrow> TUndefined
      | Inr v \<Rightarrow> (case structure h [] v of None \<Rightarrow> TUndefined | Some t \<Rightarrow> t))"

definition stringified :: "tree \<Rightarrow> tree" where
  "stringified t = (case SerializeJSONProperty t of None \<Rightarrow> TUndefined | Some s \<Rightarrow> TString s)"

definition bundle_of :: "heap \<Rightarrow> jsval \<Rightarrow> tree" where
  "bundle_of h options =
     TObject [(''storagePath'', property_tree h options ''storagePath''),
              (''clientOptions'', stringified (property_tree h options ''clientOptions'')),
              (''secretManager'', stringified (property_tree h options ''secretManager''))]"

definition bundle_text :: "heap \<Rightarrow> jsval \<Rightarrow> string" where
  "bundle_text h options =
     (case SerializeJSONProperty (bundle_of h options) of None \<Rightarrow> [] | Some s \<Rightarrow> s)"

text \<open>
  What the reader of a text finds in it: the keys of the object it rebuilds, and the
  value under a key.
\<close>

definition received_keys :: "string \<Rightarrow> string list option" where
  "received_keys text =
     (case JSON_parse text of Inr (TObject ps) \<Rightarrow> Some (map fst ps) | _ \<Rightarrow> None)"

definition received :: "string \<Rightarrow> string \<Rightarrow> tree option" where
  "received text k = (case JSON_parse text of Inr (TObject ps) \<Rightarrow> map_of ps k | _ \<Rightarrow> None)"

section \<open>Listeners and events in the native engine\<close>

text \<open>
  Modelled from the spec: the native engine's side of \<open>listen\<close> and its delivery of
  events, which are not among the sources. "Listen: registers a callback against a list
  of event-type identifiers with the native engine; the native engine invokes the
  callback asynchronously with either an error or a serialized result string."
  "Registering a listener with event types [E1, E2] and later triggering a native event
  of type E1 must invoke the callback exactly once with the corresponding serialized
  result and no error."

  The engine keeps the registrations: the event types (copied from the array when
  \<open>listen\<close> is called), the callback and the handler they were made on. The spec does
  not say what the engine does with an argument that is no array of event types; here it
  fails and registers nothing. An event of a
  handler, of a type and with a serialized result, invokes the callback of every
  registration on that handler that lists the type, with no error and that result.
\<close>

type_synonym 'h listener = "string list \<times> jsval \<times> 'h"

fun event_types :: "tree \<Rightarrow> string list option" where
  "event_types (TArray ts) = sequence (map (\<lambda>t. case t of TString s \<Rightarrow> Some s | _ \<Rightarrow> None) ts)"
| "event_types _ = None"

definition native_listen ::
  "heap \<Rightarrow> jsval \<Rightarrow> jsval \<Rightarrow> 'h \<Rightarrow> 'h listener list \<Rightarrow> (error + jsval) \<times> 'h listener list" where
  "native_listen h eventTypes callback handler ls =
     (case structure h [] eventTypes of
        None \<Rightarrow> (Inl (TypeError ''failed to downcast argument''), ls)
      | Some t \<Rightarrow>
          (case event_types t of
             None \<Rightarrow> (Inl (TypeError ''failed to downcast argument''), ls)
           | Some types \<Rightarrow> (Inr Undefined, ls @ [(types, callback, handler)])))"

text \<open>\<open>Invoke callback error result\<close>: the call \<open>callback(error, result)\<close>.\<close>

datatype invocation = Invoke jsval "error option" "string option"

definition native_event :: "'h \<Rightarrow> string \<Rightarrow> string \<Rightarrow> 'h listener list \<Rightarrow> invocation list" where
  "native_event handler eventType result ls =
     map (\<lambda>l. Invoke (fst (snd l)) None (Some result))
       (filter (\<lambda>l. snd (snd l) = handler \<and> eventType \<in> set (fst l)) ls)"

section \<open>Examples\<close>

text \<open>
  A native engine for the examples. Its state counts the handlers it has made, and a
  handle is the number of its handler. It answers every message with the same text,
  and it keeps no listeners.
\<close>

definition answering :: "(nat, nat) bindings" where
  "answering =
     \<lparr>messageHandlerNew = (\<lambda>options e. (Inr e, Suc e)),
      sendMessageAsync = (\<lambda>message handler e. (Inr (Fulfilled ''{}''), e)),
      listen = (\<lambda>h eventTypes callback handler e. (Inr Undefined, e))\<rparr>"

text \<open>An engine that fails: the constructor entry point throws, a message is rejected.\<close>

definition failing :: "(nat, nat) bindings" where
  "failing =
     \<lparr>messageHandlerNew = (\<lambda>options e. (Inl (NativeError ''no storage''), e)),
      sendMessageAsync = (\<lambda>message handler e. (Inr (Rejected (NativeError ''no account'')), e)),
      listen = (\<lambda>h eventTypes callback handler e. (Inl (NativeError ''no events''), e))\<rparr>"

text \<open>An engine with the listeners of the spec.\<close>

definition listening :: "(nat, nat listener list) bindings" where
  "listening =
     \<lparr>messageHandlerNew = (\<lambda>options e. (Inr 0, e)),
      sendMessageAsync = (\<lambda>message handler e. (Inr (Fulfilled ''{}''), e)),
      listen = native_listen\<rparr>"

text \<open>
  A heap with
  \<^item> at 0 the configuration
    \<open>{storagePath: 'db', clientOptions: {localPow: true}, secretManager: {mnemonic: 'abc'}, extra: 1}\<close>,
    whose \<open>clientOptions\<close> and \<open>secretManager\<close> are the objects at 1 and 2;
  \<^item> at 3 the configuration \<open>{storagePath: 'db'}\<close>;
  \<^item> at 4 the message \<open>{cmd: 'GetAccounts'}\<close>;
  \<^item> at 5 the method descriptor \<open>{name: 'SyncAccount', data: undefined}\<close>, and at 6 and
    7 the message \<open>{cmd: 'CallAccountMethod', payload: {accountId: 0, method: ...}}\<close>
    with that descriptor;
  \<^item> at 8 the array \<open>['NewOutput', 'SpentOutput']\<close> and at 9 a callback.
\<close>

definition example_heap :: heap where
  "example_heap =
     [Object [(''storagePath'', String ''db''), (''clientOptions'', Ref 1),
              (''secretManager'', Ref 2), (''extra'', Number (Integer 1))],
      Object [(''localPow'', Boolean True)],
      Object [(''mnemonic'', String ''abc'')],
      Object [(''storagePath'', String ''db'')],
      Object [(''cmd'', String ''GetAccounts'')],
      Object [(''name'', String ''SyncAccount''), (''data'', Undefined)],
      Object [(''accountId'', Number (Integer 0)), (''method'', Ref 5)],
      Object [(''cmd'', String ''CallAccountMethod''), (''payload'', Ref 6)],
      Array [String ''NewOutput'', String ''SpentOutput''],
      Function 0]"

text \<open>The state before any instance is made, and the state with one instance.\<close>

definition fresh :: "'e \<Rightarrow> (nat, 'e) world" where
  "fresh e = \<lparr>heap = example_heap, instances = [], engine = e, calls = []\<rparr>"

definition constructed :: "'e \<Rightarrow> (nat, 'e) world" where
  "constructed e =
     \<lparr>heap = example_heap, instances = [\<lparr>messageHandler = 0\<rparr>], engine = e, calls = []\<rparr>"

section \<open>Reading back what JSON.stringify wrote\<close>

subsection \<open>Strings\<close>

lemma hex_val_hex_digit: "d < 16 \<Longrightarrow> hex_val (hex_digit d) = Some d"
  by (simp add: hex_val_def hex_digit_def Let_def)

lemma hex_val_zero: "hex_val (CHR ''0'') = Some 0"
  by (simp add: hex_val_def)

lemma hex4_UnicodeEscape:
  "hex4 (CHR ''0'') (CHR ''0'') (hex_digit ((of_char c :: nat) div 16))
     (hex_digit ((of_char c :: nat) mod 16)) = Inr c"
proof -
  have "(of_char c :: nat) < 256"
    by simp
  then have d: "(of_char c :: nat) div 16 < 16"
    by arith
  have "char_of ((of_char c :: nat) div 16 * 16 + of_char c mod 16) = c"
    by simp
  then show ?thesis
    by (simp add: hex4_def hex_val_zero hex_val_hex_digit d Let_def)
qed

lemma parse_chars_QuoteJSONChar:
  "parse_chars (QuoteJSONChar c @ t) = prepend c (parse_chars t)"
  by (simp add: QuoteJSONChar_def UnicodeEscape_def unescape_def hex4_UnicodeEscape)

lemma parse_chars_quoted:
  "parse_chars (concat (map QuoteJSONChar s) @ CHR 0x22 # rest) = Inr (s, rest)"
  by (induction s) (simp_all add: parse_chars_QuoteJSONChar prepend_def)

subsection \<open>Numbers\<close>

lemma digits_nonempty: "digits n \<noteq> []"
  by (subst digits.simps) simp

lemma of_char_digit: "0 \<le> d \<Longrightarrow> d < 10 \<Longrightarrow> (of_char (char_of (48 + d :: int)) :: int) = 48 + d"
  by simp

lemma is_digit_char_of: "0 \<le> d \<Longrightarrow> d < 10 \<Longrightarrow> is_digit (char_of (48 + d :: int))"
  by (simp add: is_digit_def)

lemma digit_val_char_of: "0 \<le> d \<Longrightarrow> d < 10 \<Longrightarrow> digit_val (char_of (48 + d :: int)) = d"
  by (simp add: digit_val_def)

lemma digits_all: "0 \<le> n \<Longrightarrow> \<forall>c \<in> set (digits n). is_digit c"
proof (induction n rule: digits.induct)
  case (1 n)
  show ?case
  proof (cases "n < 10")
    case True
    with 1(2) show ?thesis
      by (subst digits.simps) (simp add: is_digit_char_of)
  next
    case False
    with 1 show ?thesis
      by (subst digits.simps) (simp add: is_digit_char_of)
  qed
qed

lemma decimal_snoc: "decimal (s @ [c]) = 10 * decimal s + digit_val c"
  by (simp add: decimal_def)

lemma digits_value: "0 \<le> n \<Longrightarrow> decimal (digits n) = n"
proof (induction n rule: digits.induct)
  case (1 n)
  show ?case
  proof (cases "n < 10")
    case True
    with 1(2) show ?thesis
      by (subst digits.simps) (simp add: decimal_def digit_val_char_of)
  next
    case False
    with 1 show ?thesis
      by (subst digits.simps) (simp add: decimal_snoc digit_val_char_of)
  qed
qed

lemma digits_hd_zero: "0 \<le> n \<Longrightarrow> hd (digits n) = CHR ''0'' \<Longrightarrow> n = 0"
proof (induction n rule: digits.induct)
  case (1 n)
  show ?case
  proof (cases "n < 10")
    case True
    from True 1(3) have "char_of (48 + n) = CHR ''0''"
      by (subst (asm) digits.simps) simp
    then have "digit_val (char_of (48 + n)) = digit_val (CHR ''0'')"
      by simp
    with True 1(2) show ?thesis
      by (simp add: digit_val_char_of) (simp add: digit_val_def)
  next
    case False
    with 1 have "n div 10 = 0"
      by (subst (asm) (2) digits.simps) (simp add: digits_nonempty)
    with False 1(2) show ?thesis
      by simp
  qed
qed

lemma digits_zero: "digits 0 = ''0''"
proof -
  have "char_of (of_char (CHR ''0'') :: int) = CHR ''0''"
    by (rule char_of_char)
  then show ?thesis
    by (subst digits.simps) simp
qed

lemma delimited_not_digit:
  "delimited r \<Longrightarrow> takeWhile is_digit r = [] \<and> dropWhile is_digit r = r"
  by (cases r) (auto simp: delimited_def is_digit_def)

lemma parse_digits_digits:
  assumes "delimited r" and "0 \<le> m"
  shows "parse_digits (digits m @ r) = Some (m, r)"
proof -
  obtain c cs where ds: "digits m = c # cs"
    using digits_nonempty [of m] by (cases "digits m") auto
  have all: "\<forall>c \<in> set (digits m). is_digit c"
    using assms(2) by (rule digits_all)
  show ?thesis
  proof (cases "c = CHR ''0''")
    case True
    with ds have "m = 0"
      using digits_hd_zero [of m] assms(2) by simp
    then show ?thesis
      by (simp add: digits_zero parse_digits_def)
  next
    case False
    have c: "is_digit c"
      using all ds by simp
    have tw: "takeWhile is_digit (digits m @ r) = digits m"
      using all assms(1) by (simp add: delimited_not_digit)
    have dw: "dropWhile is_digit (digits m @ r) = r"
      using all assms(1) by (simp add: delimited_not_digit)
    have "parse_digits (digits m @ r) =
        Some (decimal (takeWhile is_digit (digits m @ r)), dropWhile is_digit (digits m @ r))"
      using False c by (simp add: parse_digits_def ds)
    then show ?thesis
      by (simp only: tw dw digits_value [OF assms(2)])
  qed
qed

lemma delimited_not_fraction:
  "delimited r \<Longrightarrow> \<not> (r \<noteq> [] \<and> hd r \<in> {CHR ''.'', CHR ''e'', CHR ''E''})"
  by (auto simp: delimited_def)

lemma digits_hd_not_minus: "0 \<le> m \<Longrightarrow> digits m = c # cs \<Longrightarrow> c \<noteq> CHR ''-''"
  using digits_all [of m] by (auto simp: is_digit_def)

lemma sint_bounds: "- (2 ^ 53) \<le> sint (w :: 54 word) \<and> sint w < 2 ^ 53"
  using sint_ge [of w] sint_lt [of w] by simp

lemma parse_number_IntegerToString:
  assumes "delimited r"
  shows "parse_number (IntegerToString (sint w) @ r) = Inr (Integer (w :: 54 word), r)"
proof (cases "sint w < 0")
  case True
  then have pos: "0 \<le> - sint w" "- sint w \<noteq> 0"
    by simp_all
  show ?thesis
    using True pos(2) delimited_not_fraction [OF assms] sint_bounds [of w]
    by (simp add: IntegerToString_def parse_number_def parse_digits_digits [OF assms pos(1)])
next
  case False
  then have pos: "0 \<le> sint w"
    by simp
  obtain c cs where ds: "digits (sint w) = c # cs"
    using digits_nonempty [of "sint w"] by (cases "digits (sint w)") auto
  have "parse_digits (c # cs @ r) = Some (sint w, r)"
    using parse_digits_digits [OF assms pos] by (simp add: ds)
  then show ?thesis
    using False delimited_not_fraction [OF assms] digits_hd_not_minus [OF pos ds]
      sint_bounds [of w]
    by (simp add: IntegerToString_def parse_number_def ds)
qed

subsection \<open>Values\<close>

lemma is_json_serialized: "is_json t \<Longrightarrow> \<exists>s. SerializeJSONProperty t = Some s"
  by (cases t) simp_all

lemma join_Cons: "join (a # as) = a @ (if as = [] then [] else CHR '','' # join as)"
  by (cases as) simp_all

lemma value_start_not_ws:
  "value_start c \<Longrightarrow> \<not> is_ws c \<and> c \<noteq> CHR '']'' \<and> c \<noteq> CHR ''}''"
  by (auto simp: value_start_def is_ws_def is_digit_def)

lemma IntegerToString_start:
  "\<exists>c cs. IntegerToString k = c # cs \<and> (c = CHR ''-'' \<or> is_digit c)"
proof (cases "k < 0")
  case True
  then show ?thesis
    by (simp add: IntegerToString_def)
next
  case False
  then have pos: "0 \<le> k"
    by simp
  obtain c cs where ds: "digits k = c # cs"
    using digits_nonempty [of k] by (cases "digits k") auto
  then have "is_digit c"
    using digits_all [OF pos] by simp
  with False ds show ?thesis
    by (simp add: IntegerToString_def)
qed

lemma is_digit_zero: "is_digit (CHR ''0'')"
  by (simp add: is_digit_def)

lemma number_start:
  "\<exists>c cs. (if finite_number x then NumberToString x else ''null'') = c # cs \<and> value_start c"
proof (cases x)
  case (Integer w)
  with IntegerToString_start [of "sint w"] show ?thesis
    by (auto simp: value_start_def)
next
  case MinusZero
  then show ?thesis
    by (simp add: value_start_def is_digit_zero)
qed (simp_all add: value_start_def)

lemma serialized_start:
  "SerializeJSONProperty t = Some s \<Longrightarrow> \<exists>c cs. s = c # cs \<and> value_start c"
proof (cases t)
  case (TNumber x)
  assume "SerializeJSONProperty t = Some s"
  with TNumber have "s = (if finite_number x then NumberToString x else ''null'')"
    by simp
  with number_start [of x] show ?thesis
    by simp
qed (auto simp: value_start_def QuoteJSONString_def)

lemma parse_value_null: "parse_value (Suc n) (''null'' @ r) = Inr (TNull, r)"
  by (simp add: skip_ws_def is_ws_def)

lemma parse_value_true: "parse_value (Suc n) (''true'' @ r) = Inr (TBoolean True, r)"
  by (simp add: skip_ws_def is_ws_def)

lemma parse_value_false: "parse_value (Suc n) (''false'' @ r) = Inr (TBoolean False, r)"
  by (simp add: skip_ws_def is_ws_def)

lemma parse_value_string:
  "parse_value (Suc n) (QuoteJSONString s @ r) = Inr (TString s, r)"
  by (simp add: QuoteJSONString_def skip_ws_def is_ws_def parse_chars_quoted)

lemma parse_value_number:
  assumes "delimited r"
  shows "parse_value (Suc n) (IntegerToString (sint w) @ r) = Inr (TNumber (Integer (w :: 54 word)), r)"
proof -
  obtain c cs where nt: "IntegerToString (sint w) = c # cs" and c: "c = CHR ''-'' \<or> is_digit c"
    using IntegerToString_start [of "sint w"] by blast
  have ws: "skip_ws (c # cs @ r) = c # cs @ r"
    using c by (auto simp: skip_ws_def is_ws_def is_digit_def)
  have other: "c \<noteq> CHR ''[''" "c \<noteq> CHR ''{''" "c \<noteq> CHR 0x22" "c \<noteq> CHR ''n''"
    "c \<noteq> CHR ''t''" "c \<noteq> CHR ''f''"
    using c by (auto simp: is_digit_def)
  have "parse_number (c # cs @ r) = Inr (Integer w, r)"
    using parse_number_IntegerToString [OF assms, of w] by (simp add: nt)
  then show ?thesis
    by (simp add: nt ws other)
qed

lemma delimited_simps:
  "delimited (CHR '','' # r)" "delimited (CHR '']'' # r)" "delimited (CHR ''}'' # r)"
  "delimited []"
  by (simp_all add: delimited_def)

lemma skip_ws_delims:
  "skip_ws (CHR '','' # r) = CHR '','' # r"
  "skip_ws (CHR '']'' # r) = CHR '']'' # r"
  "skip_ws (CHR ''}'' # r) = CHR ''}'' # r"
  "skip_ws (CHR '':'' # r) = CHR '':'' # r"
  by (simp_all add: skip_ws_def is_ws_def)

lemma SerializeJSONArray_Nil: "SerializeJSONArray xs = [] \<longleftrightarrow> xs = []"
  by (cases xs) simp_all

lemma parse_elements_serialized:
  assumes IH: "\<And>x s n r. x \<in> set xs \<Longrightarrow> SerializeJSONProperty x = Some s \<Longrightarrow> delimited r \<Longrightarrow>
      length s \<le> n \<Longrightarrow> parse_value n (s @ r) = Inr (x, r)"
    and "\<forall>x \<in> set xs. is_json x"
    and "xs \<noteq> []"
    and "length (join (SerializeJSONArray xs)) < m"
  shows "parse_elements m acc (join (SerializeJSONArray xs) @ CHR '']'' # r) = Inr (acc @ xs, r)"
  using assms
proof (induction xs arbitrary: m acc)
  case Nil
  then show ?case
    by simp
next
  case (Cons x xs)
  obtain sx where sx: "SerializeJSONProperty x = Some sx"
    using Cons.prems(2) is_json_serialized [of x] by auto
  obtain m' where m: "m = Suc m'"
    using Cons.prems(4) by (cases m) auto
  let ?tail = "if xs = [] then CHR '']'' # r
    else CHR '','' # join (SerializeJSONArray xs) @ CHR '']'' # r"
  have split_text: "join (SerializeJSONArray (x # xs)) @ CHR '']'' # r = sx @ ?tail"
    by (simp add: sx join_Cons SerializeJSONArray_Nil)
  have len: "length sx \<le> m'" "xs \<noteq> [] \<Longrightarrow> length (join (SerializeJSONArray xs)) < m'"
    using Cons.prems(4) by (simp_all add: sx join_Cons SerializeJSONArray_Nil m split: if_splits)
  have pv: "parse_value m' (sx @ ?tail) = Inr (x, ?tail)"
    by (rule Cons.prems(1)) (simp_all add: sx len delimited_simps)
  have unfold: "parse_elements m acc (join (SerializeJSONArray (x # xs)) @ CHR '']'' # r) =
      (case skip_ws ?tail of
         [] \<Rightarrow> Inl Malformed
       | c # cs \<Rightarrow>
           if c = CHR '','' then parse_elements m' (acc @ [x]) cs
           else if c = CHR '']'' then Inr (acc @ [x], cs)
           else Inl Malformed)"
    by (simp only: split_text m parse_elements.simps pv sum.case prod.case)
  show ?case
  proof (cases "xs = []")
    case True
    show ?thesis
      unfolding unfold using True by (simp add: skip_ws_delims)
  next
    case False
    have "parse_elements m' (acc @ [x]) (join (SerializeJSONArray xs) @ CHR '']'' # r) =
        Inr ((acc @ [x]) @ xs, r)"
      using Cons.prems(1,2) False len(2) by (intro Cons.IH) auto
    then show ?thesis
      unfolding unfold using False by (simp add: skip_ws_delims)
  qed
qed

lemma define_property_fresh:
  "k \<notin> fst ` set acc \<Longrightarrow> enumeration_order (map fst acc @ [k]) \<Longrightarrow>
   define_property k v acc = acc @ [(k, v)]"
  by (induction acc) (auto simp: enumeration_order_def)

lemma enumeration_order_prefix: "enumeration_order (ks @ qs) \<Longrightarrow> enumeration_order ks"
  by (simp add: enumeration_order_def sorted_wrt_append)

lemma SerializeJSONObject_Nil:
  "\<forall>p \<in> set ps. is_json (snd p) \<Longrightarrow> SerializeJSONObject ps = [] \<longleftrightarrow> ps = []"
proof (cases ps)
  case Nil
  then show ?thesis
    by simp
next
  case (Cons p ps')
  assume "\<forall>p \<in> set ps. is_json (snd p)"
  with Cons obtain s where "SerializeJSONProperty (snd p) = Some s"
    using is_json_serialized [of "snd p"] by auto
  with Cons show ?thesis
    by (cases p) simp
qed

lemma parse_members_serialized:
  assumes IH: "\<And>p s n r. p \<in> set ps \<Longrightarrow> SerializeJSONProperty (snd p) = Some s \<Longrightarrow>
      delimited r \<Longrightarrow> length s \<le> n \<Longrightarrow> parse_value n (s @ r) = Inr (snd p, r)"
    and "\<forall>p \<in> set ps. is_json (snd p)"
    and "distinct (map fst (acc @ ps))"
    and "ps \<noteq> []"
    and "length (join (SerializeJSONObject ps)) < m"
    and "enumeration_order (map fst (acc @ ps))"
  shows "parse_members m acc (join (SerializeJSONObject ps) @ CHR ''}'' # r) = Inr (acc @ ps, r)"
  using assms
proof (induction ps arbitrary: m acc)
  case Nil
  then show ?case
    by simp
next
  case (Cons p ps)
  obtain k v where p: "p = (k, v)"
    by (cases p)
  obtain sv where sv: "SerializeJSONProperty v = Some sv"
    using Cons.prems(2) is_json_serialized [of v] by (auto simp: p)
  obtain m' where m: "m = Suc m'"
    using Cons.prems(5) by (cases m) auto
  have rest_json: "\<forall>p \<in> set ps. is_json (snd p)"
    using Cons.prems(2) by simp
  note nil = SerializeJSONObject_Nil [OF rest_json]
  let ?tail = "if ps = [] then CHR ''}'' # r
    else CHR '','' # join (SerializeJSONObject ps) @ CHR ''}'' # r"
  have split_text: "join (SerializeJSONObject (p # ps)) @ CHR ''}'' # r =
      CHR 0x22 # concat (map QuoteJSONChar k) @ CHR 0x22 # CHR '':'' # sv @ ?tail"
    by (simp add: p sv join_Cons nil QuoteJSONString_def)
  have len: "length sv \<le> m'" "ps \<noteq> [] \<Longrightarrow> length (join (SerializeJSONObject ps)) < m'"
    using Cons.prems(5)
    by (simp_all add: p sv join_Cons nil m QuoteJSONString_def split: if_splits)
  have pv: "parse_value m' (sv @ ?tail) = Inr (v, ?tail)"
    using Cons.prems(1) [of p sv ?tail m'] by (simp add: p sv len delimited_simps)
  have "enumeration_order ((map fst acc @ [k]) @ map fst ps)"
    using Cons.prems(6) by (simp add: p)
  then have ordered: "enumeration_order (map fst acc @ [k])"
    by (rule enumeration_order_prefix)
  have fresh: "define_property k v acc = acc @ [(k, v)]"
    using Cons.prems(3) ordered by (intro define_property_fresh) (auto simp: p)
  have quote_skip: "skip_ws (CHR 0x22 # s) = CHR 0x22 # s" for s
    by (simp add: skip_ws_def is_ws_def)
  have unfold: "parse_members m acc (join (SerializeJSONObject (p # ps)) @ CHR ''}'' # r) =
      (case skip_ws ?tail of
         [] \<Rightarrow> Inl Malformed
       | e # es \<Rightarrow>
           if e = CHR '','' then parse_members m' (acc @ [(k, v)]) es
           else if e = CHR ''}'' then Inr (acc @ [(k, v)], es)
           else Inl Malformed)"
    by (simp only: split_text m parse_members.simps quote_skip list.case if_True
        parse_chars_quoted sum.case prod.case skip_ws_delims pv fresh simp_thms)
  show ?case
  proof (cases "ps = []")
    case True
    show ?thesis
      unfolding unfold using True by (simp add: skip_ws_delims p)
  next
    case False
    have "parse_members m' (acc @ [p]) (join (SerializeJSONObject ps) @ CHR ''}'' # r) =
        Inr ((acc @ [p]) @ ps, r)"
      using Cons.prems(1,3,6) rest_json False len(2) by (intro Cons.IH) auto
    then show ?thesis
      unfolding unfold using False by (simp add: skip_ws_delims p)
  qed
qed

lemma parse_value_serialized:
  "is_json t \<Longrightarrow> SerializeJSONProperty t = Some s \<Longrightarrow> delimited r \<Longrightarrow> length s \<le> n \<Longrightarrow>
   parse_value n (s @ r) = Inr (t, r)"
proof (induction t arbitrary: s r n)
  case (TArray xs)
  obtain n' where n: "n = Suc n'"
    using TArray.prems by (cases n) auto
  show ?case
  proof (cases "xs = []")
    case True
    with TArray.prems show ?thesis
      by (auto simp: n skip_ws_def is_ws_def)
  next
    case False
    let ?j = "join (SerializeJSONArray xs)"
    obtain x xs' where xs: "xs = x # xs'"
      using False by (cases xs) auto
    obtain sx where sx: "SerializeJSONProperty x = Some sx"
      using TArray.prems(1) is_json_serialized [of x] by (auto simp: xs)
    obtain c cs where j: "?j = c # cs" and c: "value_start c"
      using serialized_start [OF sx] by (auto simp: xs sx join_Cons)
    have s: "s = CHR ''['' # ?j @ CHR '']'' # []"
      using TArray.prems(2) by simp
    have "parse_elements n' [] (?j @ CHR '']'' # r) = Inr ([] @ xs, r)"
    proof (rule parse_elements_serialized)
      show "\<forall>x \<in> set xs. is_json x"
        using TArray.prems(1) by simp
      show "xs \<noteq> []"
        by (rule False)
      show "length ?j < n'"
        using TArray.prems(4) by (simp add: s n)
    next
      fix x s n r
      assume "x \<in> set xs" "SerializeJSONProperty x = Some s" "delimited r" "length s \<le> n"
      moreover from \<open>x \<in> set xs\<close> TArray.prems(1) have "is_json x"
        by simp
      ultimately show "parse_value n (s @ r) = Inr (x, r)"
        by (auto intro: TArray.IH)
    qed
    then show ?thesis
      using value_start_not_ws [OF c]
      by (simp add: s n j skip_ws_def is_ws_def del: SerializeJSONArray.simps)
  qed
next
  case (TObject ps)
  obtain n' where n: "n = Suc n'"
    using TObject.prems by (cases n) auto
  have all: "\<forall>p \<in> set ps. is_json (snd p)"
    using TObject.prems(1) by simp
  show ?case
  proof (cases "ps = []")
    case True
    with TObject.prems show ?thesis
      by (auto simp: n skip_ws_def is_ws_def)
  next
    case False
    let ?j = "join (SerializeJSONObject ps)"
    obtain p ps' where ps: "ps = p # ps'"
      using False by (cases ps) auto
    obtain sv where sv: "SerializeJSONProperty (snd p) = Some sv"
      using all is_json_serialized [of "snd p"] by (auto simp: ps)
    obtain cs where j: "?j = CHR 0x22 # cs"
      by (cases p) (use sv in \<open>auto simp: ps join_Cons QuoteJSONString_def\<close>)
    have s: "s = CHR ''{'' # ?j @ CHR ''}'' # []"
      using TObject.prems(2) by simp
    have "parse_members n' [] (?j @ CHR ''}'' # r) = Inr ([] @ ps, r)"
    proof (rule parse_members_serialized)
      show "\<forall>p \<in> set ps. is_json (snd p)"
        by (rule all)
      show "distinct (map fst ([] @ ps))"
        using TObject.prems(1) by simp
      show "enumeration_order (map fst ([] @ ps))"
        using TObject.prems(1) by simp
      show "ps \<noteq> []"
        by (rule False)
      show "length ?j < n'"
        using TObject.prems(4) by (simp add: s n)
    next
      fix q s n r
      assume q: "q \<in> set ps"
        and rest: "SerializeJSONProperty (snd q) = Some s" "delimited r" "length s \<le> n"
      have member: "snd q \<in> Basic_BNFs.snds q"
        by (cases q) simp
      from q all have "is_json (snd q)"
        by simp
      then show "parse_value n (s @ r) = Inr (snd q, r)"
        using rest by (rule TObject.IH [OF q member])
    qed
    then show ?thesis
      by (simp add: s n j skip_ws_def is_ws_def del: SerializeJSONObject.simps)
  qed
next
  case (TNumber x)
  obtain n' where n: "n = Suc n'"
    using serialized_start [OF TNumber.prems(2)] TNumber.prems(4) by (cases n) auto
  obtain w where x: "x = Integer w"
    using TNumber.prems(1) by (cases x) simp_all
  have s: "s = IntegerToString (sint w)"
    using TNumber.prems(2) by (simp add: x)
  show ?case
    unfolding s n x by (rule parse_value_number [OF TNumber.prems(3)])
next
  case (TString x)
  obtain n' where n: "n = Suc n'"
    using serialized_start [OF TString.prems(2)] TString.prems(4) by (cases n) auto
  have s: "s = QuoteJSONString x"
    using TString.prems(2) by simp
  show ?case
    unfolding s n by (rule parse_value_string)
next
  case (TBoolean b)
  obtain n' where n: "n = Suc n'"
    using serialized_start [OF TBoolean.prems(2)] TBoolean.prems(4) by (cases n) auto
  show ?case
  proof (cases b)
    case True
    with TBoolean.prems(2) have s: "s = ''true''"
      by simp
    show ?thesis
      using True by (simp only: s n parse_value_true)
  next
    case False
    with TBoolean.prems(2) have s: "s = ''false''"
      by simp
    show ?thesis
      using False by (simp only: s n parse_value_false)
  qed
next
  case TNull
  obtain n' where n: "n = Suc n'"
    using serialized_start [OF TNull.prems(2)] TNull.prems(4) by (cases n) auto
  have s: "s = ''null''"
    using TNull.prems(2) by simp
  show ?case
    unfolding s n by (rule parse_value_null)
qed simp_all

lemma JSON_parse_serialized:
  assumes "is_json t" and "SerializeJSONProperty t = Some s"
  shows "JSON_parse s = Inr t"
proof -
  have "parse_value (Suc (length s)) (s @ []) = Inr (t, [])"
    using assms by (intro parse_value_serialized) (simp_all add: delimited_simps)
  then show ?thesis
    by (simp add: JSON_parse_def skip_ws_def)
qed

section \<open>What the constructor does on a configuration\<close>

text \<open>The value that JSON.stringify returns for a structure.\<close>

lemma JSON_stringify_structure:
  "structure h [] v = Some t \<Longrightarrow>
   JSON_stringify h v = Inr (case SerializeJSONProperty t of None \<Rightarrow> Undefined | Some s \<Rightarrow> String s)"
  by (simp add: JSON_stringify_def)

lemma structure_new_object:
  "structure (h @ [Object ps]) [] (Ref (length h)) =
   map_option TObject
     (sequence (map (\<lambda>p. map_option (Pair (fst p)) (structure (h @ [Object ps]) [length h] (snd p))) ps))"
  by simp

lemma structure_text:
  "structure h stack (case x of None \<Rightarrow> Undefined | Some s \<Rightarrow> String s) =
   Some (case x of None \<Rightarrow> TUndefined | Some s \<Rightarrow> TString s)"
  by (cases x) simp_all

lemma AccountManagerOptions_cases:
  assumes "AccountManagerOptions h options"
  obtains a ps tc ts where "options = Ref a" "a < length h" "h ! a = Object ps"
    "field ps ''storagePath'' = Undefined \<or> (\<exists>p. field ps ''storagePath'' = String p)"
    "structure h [] (field ps ''clientOptions'') = Some tc"
    "structure h [] (field ps ''secretManager'') = Some ts"
proof -
  obtain a where a: "options = Ref a"
    using assms by (cases options) (simp_all add: AccountManagerOptions_def)
  have len: "a < length h"
    using assms by (simp add: AccountManagerOptions_def a)
  obtain ps where ps: "h ! a = Object ps"
    using assms by (cases "h ! a") (simp_all add: AccountManagerOptions_def a)
  have sp: "field ps ''storagePath'' = Undefined \<or> (\<exists>p. field ps ''storagePath'' = String p)"
    using assms by (cases "field ps ''storagePath''") (simp_all add: AccountManagerOptions_def a ps)
  obtain tc where tc: "structure h [] (field ps ''clientOptions'') = Some tc"
    using assms by (auto simp: AccountManagerOptions_def a ps)
  obtain ts where ts: "structure h [] (field ps ''secretManager'') = Some ts"
    using assms by (auto simp: AccountManagerOptions_def a ps)
  from a len ps sp tc ts show ?thesis
    by (rule that)
qed

lemma constructor_run:
  assumes "AccountManagerOptions (heap w) options"
  shows "\<exists>h'. MessageHandler_constructor B options w =
    (case messageHandlerNew B (String (bundle_text (heap w) options)) (engine w) of
       (Inl e, e') \<Rightarrow>
         (Inl e, w\<lparr>heap := heap w @ h', engine := e',
            calls := calls w @ [MessageHandlerNew (String (bundle_text (heap w) options))]\<rparr>)
     | (Inr handler, e') \<Rightarrow>
         (Inr (length (instances w)),
          w\<lparr>heap := heap w @ h', engine := e',
            calls := calls w @ [MessageHandlerNew (String (bundle_text (heap w) options))],
            instances := instances w @ [\<lparr>messageHandler = handler\<rparr>]\<rparr>))"
proof -
  obtain a ps tc ts where options: "options = Ref a" "a < length (heap w)" "heap w ! a = Object ps"
    and sp: "field ps ''storagePath'' = Undefined \<or> (\<exists>p. field ps ''storagePath'' = String p)"
    and tc: "structure (heap w) [] (field ps ''clientOptions'') = Some tc"
    and ts: "structure (heap w) [] (field ps ''secretManager'') = Some ts"
    using assms by (rule AccountManagerOptions_cases)
  define storagePath where "storagePath = field ps ''storagePath''"
  define c where "c = SerializeJSONProperty tc"
  define s where "s = SerializeJSONProperty ts"
  define clientOptions where "clientOptions = (case c of None \<Rightarrow> Undefined | Some s \<Rightarrow> String s)"
  define secretManager where "secretManager = (case s of None \<Rightarrow> Undefined | Some s \<Rightarrow> String s)"
  define lit where "lit = Object [(''storagePath'', storagePath),
    (''clientOptions'', clientOptions), (''secretManager'', secretManager)]"
  have get: "Get (heap w) options k = Inr (field ps k)" for k
    by (simp add: options)
  have co: "JSON_stringify (heap w) (field ps ''clientOptions'') = Inr clientOptions"
    by (simp add: JSON_stringify_structure [OF tc] clientOptions_def c_def)
  have sm: "JSON_stringify (heap w) (field ps ''secretManager'') = Inr secretManager"
    by (simp add: JSON_stringify_structure [OF ts] secretManager_def s_def)
  define tsp where "tsp = (case storagePath of String p \<Rightarrow> TString p | _ \<Rightarrow> TUndefined)"
  have tsp: "structure h stack storagePath = Some tsp" for h stack
    using sp by (auto simp: tsp_def storagePath_def)
  have tsp': "structure (heap w) [] (field ps ''storagePath'') = Some tsp"
    using tsp by (simp add: storagePath_def)
  have tree: "structure (heap w @ [lit]) [] (Ref (length (heap w))) =
      Some (TObject [(''storagePath'', tsp),
        (''clientOptions'', case c of None \<Rightarrow> TUndefined | Some s \<Rightarrow> TString s),
        (''secretManager'', case s of None \<Rightarrow> TUndefined | Some s \<Rightarrow> TString s)])"
    unfolding lit_def structure_new_object
    by (simp add: tsp clientOptions_def secretManager_def structure_text)
  have tree_eq: "bundle_of (heap w) options = TObject [(''storagePath'', tsp),
        (''clientOptions'', case c of None \<Rightarrow> TUndefined | Some s \<Rightarrow> TString s),
        (''secretManager'', case s of None \<Rightarrow> TUndefined | Some s \<Rightarrow> TString s)]"
    by (simp add: bundle_of_def property_tree_def get tc ts tsp' stringified_def c_def s_def)
  have text_eq: "JSON_stringify (heap w @ [lit]) (Ref (length (heap w))) =
      Inr (String (bundle_text (heap w) options))"
    unfolding JSON_stringify_structure [OF tree] bundle_text_def tree_eq
    by simp
  have "MessageHandler_constructor B options w =
    (case call_messageHandlerNew B (String (bundle_text (heap w) options))
        (w\<lparr>heap := heap w @ [lit]\<rparr>) of
       (Inl e, w2) \<Rightarrow> (Inl e, w2)
     | (Inr handler, w2) \<Rightarrow>
         (Inr (length (instances w2)),
          w2\<lparr>instances := instances w2 @ [\<lparr>messageHandler = handler\<rparr>]\<rparr>))"
    by (simp add: MessageHandler_constructor_def get co sm alloc_def
        text_eq [unfolded lit_def storagePath_def] lit_def storagePath_def
        del: structure.simps)
  then have "MessageHandler_constructor B options w =
    (case messageHandlerNew B (String (bundle_text (heap w) options)) (engine w) of
       (Inl e, e') \<Rightarrow>
         (Inl e, w\<lparr>heap := heap w @ [lit], engine := e',
            calls := calls w @ [MessageHandlerNew (String (bundle_text (heap w) options))]\<rparr>)
     | (Inr handler, e') \<Rightarrow>
         (Inr (length (instances w)),
          w\<lparr>heap := heap w @ [lit], engine := e',
            calls := calls w @ [MessageHandlerNew (String (bundle_text (heap w) options))],
            instances := instances w @ [\<lparr>messageHandler = handler\<rparr>]\<rparr>))"
    by (auto simp: call_messageHandlerNew_def split: prod.splits sum.splits)
  then show ?thesis ..
qed


lemma SerializeJSONObject_filter:
  "SerializeJSONObject (filter (\<lambda>p. SerializeJSONProperty (snd p) \<noteq> None) ps) = SerializeJSONObject ps"
  by (induction ps) auto

lemma stringified_cases: "stringified t = TUndefined \<or> (\<exists>s. stringified t = TString s)"
  by (simp add: stringified_def split: option.splits)

lemma property_tree_storagePath:
  assumes "AccountManagerOptions h options"
  shows "property_tree h options ''storagePath'' = TUndefined \<or>
    (\<exists>p. property_tree h options ''storagePath'' = TString p)"
proof -
  obtain a ps where "options = Ref a" "a < length h" "h ! a = Object ps"
    "field ps ''storagePath'' = Undefined \<or> (\<exists>p. field ps ''storagePath'' = String p)"
    using assms by (rule AccountManagerOptions_cases)
  then show ?thesis
    by (auto simp: property_tree_def)
qed

lemma text_or_undefined: "t = TUndefined \<or> (\<exists>s. t = TString s) \<Longrightarrow>
  (SerializeJSONProperty t \<noteq> None) = (t \<noteq> TUndefined) \<and> (t \<noteq> TUndefined \<longrightarrow> is_json t)"
  by auto

lemma bundle_keys_order:
  "comes_before ''storagePath'' q = False"
  "comes_before ''clientOptions'' q = False"
  "comes_before ''secretManager'' q = False"
  by (simp_all add: comes_before_def array_index_def is_digit_def)

lemma bundle_received:
  assumes "AccountManagerOptions h options"
  shows "JSON_parse (bundle_text h options) =
    Inr (TObject (filter (\<lambda>p. snd p \<noteq> TUndefined)
      [(''storagePath'', property_tree h options ''storagePath''),
       (''clientOptions'', stringified (property_tree h options ''clientOptions'')),
       (''secretManager'', stringified (property_tree h options ''secretManager''))]))"
proof -
  let ?sp = "property_tree h options ''storagePath''"
  let ?co = "stringified (property_tree h options ''clientOptions'')"
  let ?sm = "stringified (property_tree h options ''secretManager'')"
  let ?ms = "[(''storagePath'', ?sp), (''clientOptions'', ?co), (''secretManager'', ?sm)]"
  let ?present = "filter (\<lambda>p. snd p \<noteq> TUndefined) ?ms"
  note sp = text_or_undefined [OF property_tree_storagePath [OF assms]]
  note co = text_or_undefined [OF stringified_cases [of "property_tree h options ''clientOptions''"]]
  note sm = text_or_undefined [OF stringified_cases [of "property_tree h options ''secretManager''"]]
  have same: "?present = filter (\<lambda>p. SerializeJSONProperty (snd p) \<noteq> None) ?ms"
    using sp co sm by simp
  have "SerializeJSONProperty (TObject ?present) = SerializeJSONProperty (TObject ?ms)"
    unfolding same by (simp only: SerializeJSONProperty.simps SerializeJSONObject_filter)
  then have ser: "SerializeJSONProperty (TObject ?present) = Some (bundle_text h options)"
    by (simp add: bundle_text_def bundle_of_def)
  have json: "is_json (TObject ?present)"
    using sp co sm by (simp add: enumeration_order_def bundle_keys_order)
  show ?thesis
    using json ser by (rule JSON_parse_serialized)
qed

lemma constructor_throws:
  assumes "AccountManagerOptions (heap w) options"
    and "messageHandlerNew B (String (bundle_text (heap w) options)) (engine w) = (Inl e, e')"
  shows "\<exists>h'. MessageHandler_constructor B options w =
    (Inl e, w\<lparr>heap := heap w @ h', engine := e',
       calls := calls w @ [MessageHandlerNew (String (bundle_text (heap w) options))]\<rparr>)"
  using constructor_run [OF assms(1), of B] by (simp add: assms(2))

lemma constructor_returns:
  assumes "AccountManagerOptions (heap w) options"
    and "messageHandlerNew B (String (bundle_text (heap w) options)) (engine w) =
      (Inr handler, e')"
  shows "\<exists>h'. MessageHandler_constructor B options w =
    (Inr (length (instances w)),
     w\<lparr>heap := heap w @ h', engine := e',
       calls := calls w @ [MessageHandlerNew (String (bundle_text (heap w) options))],
       instances := instances w @ [\<lparr>messageHandler = handler\<rparr>]\<rparr>)"
  using constructor_run [OF assms(1), of B] by (simp add: assms(2))

lemma constructor_calls:
  assumes "AccountManagerOptions (heap w) options"
  shows "calls (snd (MessageHandler_constructor B options w)) =
    calls w @ [MessageHandlerNew (String (bundle_text (heap w) options))]"
proof -
  obtain r e' where native:
    "messageHandlerNew B (String (bundle_text (heap w) options)) (engine w) = (r, e')"
    by (cases "messageHandlerNew B (String (bundle_text (heap w) options)) (engine w)")
  show ?thesis
  proof (cases r)
    case (Inl e)
    with constructor_throws [OF assms] native show ?thesis
      by fastforce
  next
    case (Inr handler)
    with constructor_returns [OF assms] native show ?thesis
      by fastforce
  qed
qed

lemma constructor_result:
  assumes "AccountManagerOptions (heap w) options"
  shows "(case fst (messageHandlerNew B (String (bundle_text (heap w) options)) (engine w)) of
       Inl e \<Rightarrow>
         fst (MessageHandler_constructor B options w) = Inl e \<and>
         instances (snd (MessageHandler_constructor B options w)) = instances w
     | Inr handler \<Rightarrow>
         fst (MessageHandler_constructor B options w) = Inr (length (instances w)) \<and>
         instances (snd (MessageHandler_constructor B options w)) =
           instances w @ [\<lparr>messageHandler = handler\<rparr>])"
proof -
  obtain r e' where native:
    "messageHandlerNew B (String (bundle_text (heap w) options)) (engine w) = (r, e')"
    by (cases "messageHandlerNew B (String (bundle_text (heap w) options)) (engine w)")
  show ?thesis
  proof (cases r)
    case (Inl e)
    with constructor_throws [OF assms] native show ?thesis
      by fastforce
  next
    case (Inr handler)
    with constructor_returns [OF assms] native show ?thesis
      by fastforce
  qed
qed

lemma bundle_serialized:
  "SerializeJSONProperty (bundle_of h options) = Some (bundle_text h options)"
  by (simp add: bundle_text_def bundle_of_def)

lemma received_bundle:
  assumes "AccountManagerOptions h options"
  shows "received_keys (bundle_text h options) =
      Some (map fst (filter (\<lambda>p. snd p \<noteq> TUndefined)
        [(''storagePath'', property_tree h options ''storagePath''),
         (''clientOptions'', stringified (property_tree h options ''clientOptions'')),
         (''secretManager'', stringified (property_tree h options ''secretManager''))]))"
    and "received (bundle_text h options) k =
      map_of (filter (\<lambda>p. snd p \<noteq> TUndefined)
        [(''storagePath'', property_tree h options ''storagePath''),
         (''clientOptions'', stringified (property_tree h options ''clientOptions'')),
         (''secretManager'', stringified (property_tree h options ''secretManager''))]) k"
  by (simp_all only: received_keys_def received_def bundle_received [OF assms]
      sum.case tree.case)

section \<open>Objects that stay as they are\<close>

lemma sequence_map_mono:
  assumes "\<And>x y. x \<in> set xs \<Longrightarrow> f x = Some y \<Longrightarrow> g x = Some y"
    and "sequence (map f xs) = Some ys"
  shows "sequence (map g xs) = Some ys"
  using assms
proof (induction xs arbitrary: ys)
  case Nil
  then show ?case by simp
next
  case (Cons x xs)
  from Cons.prems(2) obtain y where y: "f x = Some y"
    by (cases "f x") auto
  with Cons.prems(2) obtain ys' where ys': "sequence (map f xs) = Some ys'" and ys: "ys = y # ys'"
    by (cases "sequence (map f xs)") auto
  have "g x = Some y"
    using Cons.prems(1) y by simp
  moreover have "sequence (map g xs) = Some ys'"
    using Cons.prems(1) ys' by (intro Cons.IH) auto
  ultimately show ?case
    by (simp add: ys)
qed

lemma structure_extend:
  "structure h stack v = Some t \<Longrightarrow> set stack' \<subseteq> set stack \<union> {a. length h \<le> a} \<Longrightarrow>
   structure (h @ h') stack' v = Some t"
proof (induction h stack v arbitrary: stack' t rule: structure.induct)
  case (6 h stack a)
  from "6.prems"(1) have a: "a \<notin> set stack" "a < length h"
    by (auto split: if_splits)
  then have a': "a \<notin> set stack'" "a < length (h @ h')"
    using "6.prems"(2) by auto
  have sub: "set (a # stack') \<subseteq> set (a # stack) \<union> {a. length h \<le> a}"
    using "6.prems"(2) by auto
  have nth: "(h @ h') ! a = h ! a"
    using a by (simp add: nth_append)
  show ?case
  proof (cases "h ! a")
    case (Function k)
    with "6.prems"(1) a a' nth show ?thesis
      by simp
  next
    case (Array vs)
    from "6.prems"(1) a Array obtain ts where
      ts: "sequence (map (\<lambda>v. structure h (a # stack) v) vs) = Some ts" and t: "t = TArray ts"
      by auto
    have "sequence (map (\<lambda>v. structure (h @ h') (a # stack') v) vs) = Some ts"
    proof (rule sequence_map_mono [OF _ ts])
      fix x y
      assume "x \<in> set vs" "structure h (a # stack) x = Some y"
      then show "structure (h @ h') (a # stack') x = Some y"
        using "6.IH"(2) [OF _ Array] a sub by simp
    qed
    with a' nth Array t show ?thesis
      by simp
  next
    case (Object ps)
    from "6.prems"(1) a Object obtain ms where
      ms: "sequence (map (\<lambda>p. map_option (Pair (fst p)) (structure h (a # stack) (snd p))) ps) = Some ms"
      and t: "t = TObject ms"
      by auto
    have "sequence (map (\<lambda>p. map_option (Pair (fst p)) (structure (h @ h') (a # stack') (snd p))) ps) =
        Some ms"
    proof (rule sequence_map_mono [OF _ ms])
      fix x y
      assume x: "x \<in> set ps" and "map_option (Pair (fst x)) (structure h (a # stack) (snd x)) = Some y"
      then obtain z where z: "structure h (a # stack) (snd x) = Some z" and y: "y = (fst x, z)"
        by auto
      have "structure (h @ h') (a # stack') (snd x) = Some z"
        using "6.IH"(1) [OF _ Object x z sub] a by simp
      then show "map_option (Pair (fst x)) (structure (h @ h') (a # stack') (snd x)) = Some y"
        by (simp add: y)
    qed
    with a' nth Object t show ?thesis
      by simp
  qed
qed simp_all

lemma call_messageHandlerNew_frame:
  "heap (snd (call_messageHandlerNew B t w)) = heap w \<and>
   instances (snd (call_messageHandlerNew B t w)) = instances w"
  by (simp add: call_messageHandlerNew_def split: prod.splits)

lemma call_sendMessageAsync_frame:
  "heap (snd (call_sendMessageAsync B t handler w)) = heap w \<and>
   instances (snd (call_sendMessageAsync B t handler w)) = instances w"
  by (simp add: call_sendMessageAsync_def split: prod.splits)

lemma call_listen_frame:
  "heap (snd (call_listen B ts cb handler w)) = heap w \<and>
   instances (snd (call_listen B ts cb handler w)) = instances w"
  by (simp add: call_listen_def split: prod.splits)

lemma constructor_heap:
  "\<exists>h'. heap (snd (MessageHandler_constructor B options w)) = heap w @ h'"
proof -
  have native: "heap w2 = heap w1" if "call_messageHandlerNew B t w1 = (r, w2)" for t w1 r w2
    using call_messageHandlerNew_frame [of B t w1] that by simp
  show ?thesis
    by (auto simp: MessageHandler_constructor_def alloc_def dest!: native
        split: sum.splits prod.splits)
qed

section \<open>The examples, evaluated\<close>

lemma example_valid: "AccountManagerOptions example_heap (Ref 0)"
  by code_simp

lemma example_message: \<open>JSON_stringify example_heap (Ref 4) = Inr (String ''{"cmd":"GetAccounts"}'')\<close>
  by code_simp


lemma example_options:
  \<open>SerializeJSONProperty (property_tree example_heap (Ref 0) ''clientOptions'') =
     Some ''{"localPow":true}''\<close>
  \<open>SerializeJSONProperty (property_tree example_heap (Ref 0) ''secretManager'') =
     Some ''{"mnemonic":"abc"}''\<close>
  by code_simp+

lemma example_structure:
  "structure example_heap [] (Ref 0) =
     Some (TObject [(''storagePath'', TString ''db''),
       (''clientOptions'', TObject [(''localPow'', TBoolean True)]),
       (''secretManager'', TObject [(''mnemonic'', TString ''abc'')]),
       (''extra'', TNumber (Integer 1))])"
  by code_simp

text \<open>
  Numbers in a text. The integers at the two ends of the range are written in full and
  read back. \<open>NaN\<close> is written \<open>null\<close> and the negative zero \<open>0\<close>, so neither is read
  back; \<open>-0\<close> in a text is the negative zero. A number with a fraction or an exponent,
  and an integer from \<open>2^53\<close> on, is outside the model.
\<close>

lemma example_integers:
  "SerializeJSONProperty
     (TArray [TNumber (Integer (- 9007199254740992)), TNumber (Integer 9007199254740991)]) =
     Some ''[-9007199254740992,9007199254740991]''"
  "JSON_parse ''[-9007199254740992,9007199254740991]'' =
     Inr (TArray [TNumber (Integer (- 9007199254740992)), TNumber (Integer 9007199254740991)])"
  by code_simp+

lemma example_not_a_number:
  \<open>SerializeJSONProperty (TObject [(''amount'', TNumber NaN)]) = Some ''{"amount":null}''\<close>
  \<open>JSON_parse ''{"amount":null}'' = Inr (TObject [(''amount'', TNull)])\<close>
  by code_simp+

lemma example_negative_zero:
  "SerializeJSONProperty (TNumber MinusZero) = Some ''0''"
  "JSON_parse ''0'' = Inr (TNumber (Integer 0))"
  "JSON_parse ''-0'' = Inr (TNumber MinusZero)"
  by code_simp+

lemma example_outside:
  "JSON_parse ''1.5'' = Inl Outside"
  "JSON_parse ''1e+21'' = Inl Outside"
  "JSON_parse ''9007199254740992'' = Inl Outside"
  "JSON_parse ''01'' = Inl Malformed"
  by code_simp+

text \<open>
  The keys of an object that is read: the array indices first, in ascending order, and
  a key that comes twice keeps its first place and takes the last value.
\<close>

lemma example_key_order:
  \<open>JSON_parse ''{"b":1,"1":2,"0":3,"b":4,"01":5}'' =
     Inr (TObject [(''0'', TNumber (Integer 3)), (''1'', TNumber (Integer 2)),
       (''b'', TNumber (Integer 4)), (''01'', TNumber (Integer 5))])\<close>
  by code_simp

section \<open>Properties of the adapter\<close>

subsection \<open>The account-method wrapper\<close>

text \<open>
  C1. For every account identifier \<open>A\<close> and method descriptor \<open>M\<close>,
  \<open>callAccountMethod(A, M)\<close> gives what \<open>sendMessage\<close> gives on the envelope
  \<open>{cmd: 'CallAccountMethod', payload: {accountId: A, method: M}}\<close>: the same promise
  and the same state afterwards. The envelope and its payload are the two objects the
  wrapper allocates. Where \<open>A\<close> and \<open>M\<close> have the structures \<open>a\<close> and \<open>m\<close>, the
  structure of the envelope has the command tag and the payload, and the payload has
  \<open>accountId\<close> with \<open>a\<close>, \<open>method\<close> with \<open>m\<close>, and no other property.
\<close>

theorem callAccountMethod_is_sendMessage:
  "MessageHandler_callAccountMethod B this A M w =
     MessageHandler_sendMessage B this (Ref (Suc (length (heap w))))
       (w\<lparr>heap := heap w @
          [Object [(''accountId'', A), (''method'', M)],
           Object [(''cmd'', String ''CallAccountMethod''), (''payload'', Ref (length (heap w)))]]\<rparr>) \<and>
   (structure (heap w) [] A = Some a \<longrightarrow> structure (heap w) [] M = Some m \<longrightarrow>
    structure
      (heap w @
        [Object [(''accountId'', A), (''method'', M)],
         Object [(''cmd'', String ''CallAccountMethod''), (''payload'', Ref (length (heap w)))]])
      [] (Ref (Suc (length (heap w)))) =
    Some (TObject [(''cmd'', TString ''CallAccountMethod''),
      (''payload'', TObject [(''accountId'', a), (''method'', m)])]))"
proof (intro conjI impI)
  show "MessageHandler_callAccountMethod B this A M w =
     MessageHandler_sendMessage B this (Ref (Suc (length (heap w))))
       (w\<lparr>heap := heap w @
          [Object [(''accountId'', A), (''method'', M)],
           Object [(''cmd'', String ''CallAccountMethod''), (''payload'', Ref (length (heap w)))]]\<rparr>)"
    by (simp add: MessageHandler_callAccountMethod_def alloc_def)
next
  let ?n = "length (heap w)"
  let ?h = "heap w @
        [Object [(''accountId'', A), (''method'', M)],
         Object [(''cmd'', String ''CallAccountMethod''), (''payload'', Ref ?n)]]"
  assume A: "structure (heap w) [] A = Some a" and M: "structure (heap w) [] M = Some m"
  have inner: "structure ?h [?n, Suc ?n] v = Some t" if "structure (heap w) [] v = Some t" for v t
    using that by (rule structure_extend) simp
  have n: "?h ! ?n = Object [(''accountId'', A), (''method'', M)]"
    by (simp add: nth_append)
  have sn: "?h ! Suc ?n = Object [(''cmd'', String ''CallAccountMethod''), (''payload'', Ref ?n)]"
    by (simp add: nth_append)
  have len: "length ?h = Suc (Suc ?n)"
    by simp
  have payload: "structure ?h [Suc ?n] (Ref ?n) = Some (TObject [(''accountId'', a), (''method'', m)])"
    by (simp only: structure.simps(6) n len) (simp add: inner [OF A] inner [OF M])
  show "structure ?h [] (Ref (Suc ?n)) =
    Some (TObject [(''cmd'', TString ''CallAccountMethod''),
      (''payload'', TObject [(''accountId'', a), (''method'', m)])])"
    by (simp only: structure.simps(6) sn len) (simp add: payload del: structure.simps(6))
qed

text \<open>
  An instance: account 0 and the method descriptor at address 5 of the example heap. The
  two new objects are at 10 and 11.
\<close>

theorem callAccountMethod_is_sendMessage_witness:
  \<open>structure (heap (constructed (0::nat))) [] (Number (Integer 0)) = Some (TNumber (Integer 0)) \<and>
   structure (heap (constructed (0::nat))) [] (Ref 5) =
     Some (TObject [(''name'', TString ''SyncAccount''), (''data'', TUndefined)]) \<and>
   structure
     (heap (constructed (0::nat)) @
       [Object [(''accountId'', Number (Integer 0)), (''method'', Ref 5)],
        Object [(''cmd'', String ''CallAccountMethod''),
                (''payload'', Ref (length (heap (constructed (0::nat)))))]])
     [] (Ref (Suc (length (heap (constructed (0::nat)))))) =
     Some (TObject [(''cmd'', TString ''CallAccountMethod''),
       (''payload'', TObject [(''accountId'', TNumber (Integer 0)),
          (''method'', TObject [(''name'', TString ''SyncAccount''), (''data'', TUndefined)])])]) \<and>
   MessageHandler_callAccountMethod answering 0 (Number (Integer 0)) (Ref 5) (constructed (0::nat)) =
     MessageHandler_sendMessage answering 0 (Ref 11)
       (constructed 0\<lparr>heap := example_heap @
          [Object [(''accountId'', Number (Integer 0)), (''method'', Ref 5)],
           Object [(''cmd'', String ''CallAccountMethod''), (''payload'', Ref 10)]]\<rparr>) \<and>
   calls (snd (MessageHandler_callAccountMethod answering 0 (Number (Integer 0)) (Ref 5)
       (constructed (0::nat)))) =
     [SendMessageAsync
        (String ''{"cmd":"CallAccountMethod","payload":{"accountId":0,"method":{"name":"SyncAccount"}}}'') 0]\<close>
proof -
  have h: "heap (constructed (0::nat)) = example_heap"
    by (simp add: constructed_def)
  have n: "length example_heap = 10"
    by (simp add: example_heap_def)
  have account: "structure (heap (constructed (0::nat))) [] (Number (Integer 0)) = Some (TNumber (Integer 0))"
    by simp
  have descriptor: "structure example_heap [] (Ref 5) =
      Some (TObject [(''name'', TString ''SyncAccount''), (''data'', TUndefined)])"
    by code_simp
  then have descriptor': "structure (heap (constructed (0::nat))) [] (Ref 5) =
      Some (TObject [(''name'', TString ''SyncAccount''), (''data'', TUndefined)])"
    by (simp only: h)
  note wrapper = callAccountMethod_is_sendMessage
    [of answering 0 "Number (Integer 0)" "Ref 5" "constructed (0::nat)" "TNumber (Integer 0)"
      "TObject [(''name'', TString ''SyncAccount''), (''data'', TUndefined)]"]
  from wrapper account descriptor' have envelope: "structure
     (heap (constructed (0::nat)) @
       [Object [(''accountId'', Number (Integer 0)), (''method'', Ref 5)],
        Object [(''cmd'', String ''CallAccountMethod''),
                (''payload'', Ref (length (heap (constructed (0::nat)))))]])
     [] (Ref (Suc (length (heap (constructed (0::nat)))))) =
     Some (TObject [(''cmd'', TString ''CallAccountMethod''),
       (''payload'', TObject [(''accountId'', TNumber (Integer 0)),
          (''method'', TObject [(''name'', TString ''SyncAccount''), (''data'', TUndefined)])])])"
    by blast
  from wrapper have call: "MessageHandler_callAccountMethod answering 0 (Number (Integer 0)) (Ref 5)
      (constructed (0::nat)) =
     MessageHandler_sendMessage answering 0 (Ref 11)
       (constructed 0\<lparr>heap := example_heap @
          [Object [(''accountId'', Number (Integer 0)), (''method'', Ref 5)],
           Object [(''cmd'', String ''CallAccountMethod''), (''payload'', Ref 10)]]\<rparr>)"
    by (simp only: h n) simp
  have sent: \<open>calls (snd (MessageHandler_callAccountMethod answering 0 (Number (Integer 0)) (Ref 5)
       (constructed (0::nat)))) =
     [SendMessageAsync
        (String ''{"cmd":"CallAccountMethod","payload":{"accountId":0,"method":{"name":"SyncAccount"}}}'') 0]\<close>
    by code_simp
  from account descriptor' envelope call sent show ?thesis
    by (intro conjI)
qed

subsection \<open>The text of a message\<close>




subsection \<open>Construction\<close>

text \<open>
  C3. For every configuration object, construction serializes the client options and
  the secret-manager options to text, combines them with the storage path into the
  bundle \<open>bundle_of\<close>, and passes the text of the bundle to \<open>messageHandlerNew\<close>
  exactly once. When that call returns a handle, the constructor returns one new
  instance, whose \<open>messageHandler\<close> is that handle; when it throws, no instance is
  made.
\<close>

theorem constructor_passes_bundle_once:
  assumes "AccountManagerOptions (heap w) options"
  shows "SerializeJSONProperty (bundle_of (heap w) options) =
      Some (bundle_text (heap w) options) \<and>
    calls (snd (MessageHandler_constructor B options w)) =
      calls w @ [MessageHandlerNew (String (bundle_text (heap w) options))] \<and>
    (case fst (messageHandlerNew B (String (bundle_text (heap w) options)) (engine w)) of
       Inl e \<Rightarrow>
         fst (MessageHandler_constructor B options w) = Inl e \<and>
         instances (snd (MessageHandler_constructor B options w)) = instances w
     | Inr handler \<Rightarrow>
         fst (MessageHandler_constructor B options w) = Inr (length (instances w)) \<and>
         instances (snd (MessageHandler_constructor B options w)) =
           instances w @ [\<lparr>messageHandler = handler\<rparr>])"
  using constructor_calls [OF assms] constructor_result [OF assms] bundle_serialized
  by blast

text \<open>An instance: the configuration at address 0, on a native engine that returns.\<close>

theorem constructor_passes_bundle_once_witness:
  "AccountManagerOptions (heap (fresh (0::nat))) (Ref 0) \<and>
   calls (snd (MessageHandler_constructor answering (Ref 0) (fresh 0))) =
     [MessageHandlerNew (String (bundle_text example_heap (Ref 0)))] \<and>
   fst (MessageHandler_constructor answering (Ref 0) (fresh 0)) = Inr 0 \<and>
   instances (snd (MessageHandler_constructor answering (Ref 0) (fresh 0))) = [\<lparr>messageHandler = 0\<rparr>]"
proof -
  have valid: "AccountManagerOptions (heap (fresh (0::nat))) (Ref 0)"
    by (simp add: fresh_def example_valid)
  show ?thesis
    using valid constructor_passes_bundle_once [OF valid, of answering]
    by (simp add: fresh_def answering_def)
qed

text \<open>
  C4. The constructor changes no object that exists when it is called: the heap
  afterwards is the heap before with new objects after it. So the configuration
  object, and the \<open>clientOptions\<close> and \<open>secretManager\<close> objects it refers to, are
  what they were, and the structure of the configuration is the same.
\<close>

theorem constructor_leaves_objects:
  "take (length (heap w)) (heap (snd (MessageHandler_constructor B options w))) = heap w \<and>
   (structure (heap w) [] options = Some t \<longrightarrow>
    structure (heap (snd (MessageHandler_constructor B options w))) [] options = Some t)"
proof -
  obtain h' where h': "heap (snd (MessageHandler_constructor B options w)) = heap w @ h'"
    using constructor_heap by blast
  show ?thesis
    unfolding h' by (simp add: structure_extend)
qed

text \<open>
  An instance: the configuration at address 0. Construction allocates one object (the
  bundle), and the configuration has the structure it had.
\<close>

theorem constructor_leaves_objects_witness:
  "structure (heap (fresh (0::nat))) [] (Ref 0) =
     Some (TObject [(''storagePath'', TString ''db''),
       (''clientOptions'', TObject [(''localPow'', TBoolean True)]),
       (''secretManager'', TObject [(''mnemonic'', TString ''abc'')]),
       (''extra'', TNumber (Integer 1))]) \<and>
   structure (heap (snd (MessageHandler_constructor answering (Ref 0) (fresh (0::nat))))) [] (Ref 0) =
     Some (TObject [(''storagePath'', TString ''db''),
       (''clientOptions'', TObject [(''localPow'', TBoolean True)]),
       (''secretManager'', TObject [(''mnemonic'', TString ''abc'')]),
       (''extra'', TNumber (Integer 1))]) \<and>
   length (heap (snd (MessageHandler_constructor answering (Ref 0) (fresh (0::nat))))) =
     Suc (length (heap (fresh (0::nat))))"
proof -
  have before: "structure (heap (fresh (0::nat))) [] (Ref 0) =
     Some (TObject [(''storagePath'', TString ''db''),
       (''clientOptions'', TObject [(''localPow'', TBoolean True)]),
       (''secretManager'', TObject [(''mnemonic'', TString ''abc'')]),
       (''extra'', TNumber (Integer 1))])"
    by (simp add: fresh_def example_structure del: structure.simps)
  have grown: "length (heap (snd (MessageHandler_constructor answering (Ref 0) (fresh (0::nat))))) =
     Suc (length (heap (fresh (0::nat))))"
    by code_simp
  from before grown constructor_leaves_objects [of "fresh (0::nat)" answering "Ref 0"]
  show ?thesis
    by blast
qed

subsection \<open>Failures of the native engine\<close>

text \<open>
  C5. A failure of a native entry point reaches the caller as it is. When
  \<open>messageHandlerNew\<close> throws \<open>e\<close>, the constructor throws \<open>e\<close>. When
  \<open>sendMessageAsync\<close> throws \<open>e'\<close>, or returns a promise that is rejected with \<open>e'\<close>,
  the promise of \<open>sendMessage\<close> is rejected with \<open>e'\<close>. In both cases the entry point
  has been called once: nothing is caught, retried or translated.
\<close>

theorem native_failure_propagates:
  "(AccountManagerOptions (heap w) options \<longrightarrow>
      fst (messageHandlerNew B (String (bundle_text (heap w) options)) (engine w)) = Inl e \<longrightarrow>
      fst (MessageHandler_constructor B options w) = Inl e \<and>
      calls (snd (MessageHandler_constructor B options w)) =
        calls w @ [MessageHandlerNew (String (bundle_text (heap w) options))]) \<and>
   (this < length (instances v) \<longrightarrow>
      JSON_stringify (heap v) message = Inr text \<longrightarrow>
      fst (sendMessageAsync B text (messageHandler (instances v ! this)) (engine v)) = Inl e' \<or>
      fst (sendMessageAsync B text (messageHandler (instances v ! this)) (engine v)) =
        Inr (Rejected e') \<longrightarrow>
      fst (MessageHandler_sendMessage B this message v) = Rejected e' \<and>
      calls (snd (MessageHandler_sendMessage B this message v)) =
        calls v @ [SendMessageAsync text (messageHandler (instances v ! this))])"
proof (intro conjI impI)
  assume valid: "AccountManagerOptions (heap w) options"
    and "fst (messageHandlerNew B (String (bundle_text (heap w) options)) (engine w)) = Inl e"
  then show "fst (MessageHandler_constructor B options w) = Inl e"
    using constructor_result [OF valid, of B] by simp
  show "calls (snd (MessageHandler_constructor B options w)) =
      calls w @ [MessageHandlerNew (String (bundle_text (heap w) options))]"
    by (rule constructor_calls [OF valid])
next
  assume inst: "this < length (instances v)"
    and text_eq: "JSON_stringify (heap v) message = Inr text"
    and failure:
      "fst (sendMessageAsync B text (messageHandler (instances v ! this)) (engine v)) = Inl e' \<or>
       fst (sendMessageAsync B text (messageHandler (instances v ! this)) (engine v)) =
         Inr (Rejected e')"
  obtain r e2 where native:
    "sendMessageAsync B text (messageHandler (instances v ! this)) (engine v) = (r, e2)"
    by (cases "sendMessageAsync B text (messageHandler (instances v ! this)) (engine v)")
  from failure native have r: "r = Inl e' \<or> r = Inr (Rejected e')"
    by simp
  from r show "fst (MessageHandler_sendMessage B this message v) = Rejected e'"
    using inst by (auto simp: MessageHandler_sendMessage_def text_eq call_sendMessageAsync_def native)
  show "calls (snd (MessageHandler_sendMessage B this message v)) =
      calls v @ [SendMessageAsync text (messageHandler (instances v ! this))]"
    using inst
    by (cases r) (simp_all add: MessageHandler_sendMessage_def text_eq call_sendMessageAsync_def native)
qed

text \<open>An instance: the engine that fails.\<close>

theorem native_failure_propagates_witness:
  "AccountManagerOptions (heap (fresh (0::nat))) (Ref 0) \<and>
   fst (MessageHandler_constructor failing (Ref 0) (fresh (0::nat))) = Inl (NativeError ''no storage'') \<and>
   calls (snd (MessageHandler_constructor failing (Ref 0) (fresh (0::nat)))) =
     [MessageHandlerNew (String (bundle_text example_heap (Ref 0)))] \<and>
   fst (MessageHandler_sendMessage failing 0 (Ref 4) (constructed (0::nat))) =
     Rejected (NativeError ''no account'')"
proof -
  have valid: "AccountManagerOptions (heap (fresh (0::nat))) (Ref 0)"
    by (simp add: fresh_def example_valid)
  show ?thesis
    using valid example_message
      native_failure_propagates [of "fresh (0::nat)" "Ref 0" failing "NativeError ''no storage''"
        0 "constructed (0::nat)" "Ref 4" _ "NativeError ''no account''"]
    by (simp add: fresh_def constructed_def failing_def)
qed

subsection \<open>The handle\<close>

text \<open>
  C6. The \<open>messageHandler\<close> field of an instance is assigned by the constructor and by
  nothing else: \<open>sendMessage\<close>, \<open>callAccountMethod\<close> and \<open>listen\<close> leave every instance
  as it is, and a later construction leaves the instances that exist as they are.
\<close>

theorem handle_never_modified:
  "instances (snd (MessageHandler_sendMessage B this message w)) = instances w \<and>
   instances (snd (MessageHandler_callAccountMethod B this accountIndex method w)) = instances w \<and>
   instances (snd (MessageHandler_listen B this eventTypes callback w)) = instances w \<and>
   take (length (instances w)) (instances (snd (MessageHandler_constructor B options w))) =
     instances w"
proof -
  have send: "instances (snd (MessageHandler_sendMessage B this m v)) = instances v" for m v
  proof -
    have "instances w2 = instances v" if "call_sendMessageAsync B t handler v = (r, w2)"
      for t handler r w2
      using call_sendMessageAsync_frame [of B t handler v] that by simp
    then show ?thesis
      by (auto simp: MessageHandler_sendMessage_def split: sum.splits prod.splits)
  qed
  have account: "instances (snd (MessageHandler_callAccountMethod B this accountIndex method w)) =
      instances w"
    by (simp add: MessageHandler_callAccountMethod_def alloc_def send)
  have listen: "instances (snd (MessageHandler_listen B this eventTypes callback w)) = instances w"
    by (simp add: MessageHandler_listen_def call_listen_frame)
  have native: "instances w2 = instances w1" if "call_messageHandlerNew B t w1 = (r, w2)"
    for t w1 r w2
    using call_messageHandlerNew_frame [of B t w1] that by simp
  have new: "take (length (instances w)) (instances (snd (MessageHandler_constructor B options w))) =
      instances w"
    by (auto simp: MessageHandler_constructor_def alloc_def dest!: native
        split: sum.splits prod.splits)
  from send account listen new show ?thesis
    by blast
qed

subsection \<open>Listeners\<close>

text \<open>
  C7. After \<open>listen\<close> has registered a callback for the event types \<open>[E1, E2]\<close>, an
  event of type \<open>E1\<close> of the handler invokes the callback once more than before the
  registration: once for this registration, with no error and the serialized result.
  The native engine is the one modelled from the spec.
\<close>

theorem listener_invoked_once:
  assumes "this < length (instances w)"
    and "structure (heap w) [] eventTypes = Some (TArray [TString E1, TString E2])"
    and "listen B = native_listen"
  shows "fst (MessageHandler_listen B this eventTypes callback w) = Inr Undefined \<and>
    native_event (messageHandler (instances w ! this)) E1 result
        (engine (snd (MessageHandler_listen B this eventTypes callback w))) =
      native_event (messageHandler (instances w ! this)) E1 result (engine w) @
        [Invoke callback None (Some result)]"
  using assms(1)
  by (simp add: MessageHandler_listen_def call_listen_def assms(2,3) native_listen_def
      native_event_def)

text \<open>
  An instance: the event types at address 8 and the callback at address 9, on an engine
  with no listener yet. The callback is invoked exactly once.
\<close>

theorem listener_invoked_once_witness:
  "0 < length (instances (constructed ([] :: nat listener list))) \<and>
   structure (heap (constructed ([] :: nat listener list))) [] (Ref 8) =
     Some (TArray [TString ''NewOutput'', TString ''SpentOutput'']) \<and>
   listen listening = native_listen \<and>
   native_event 0 ''NewOutput'' ''{}''
       (engine (snd (MessageHandler_listen listening 0 (Ref 8) (Ref 9) (constructed [])))) =
     [Invoke (Ref 9) None (Some ''{}'')]"
proof -
  have inst: "0 < length (instances (constructed ([] :: nat listener list)))"
    by (simp add: constructed_def)
  have types: "structure example_heap [] (Ref 8) =
      Some (TArray [TString ''NewOutput'', TString ''SpentOutput''])"
    by code_simp
  then have types': "structure (heap (constructed ([] :: nat listener list))) [] (Ref 8) =
      Some (TArray [TString ''NewOutput'', TString ''SpentOutput''])"
    by (simp add: constructed_def del: structure.simps)
  have native: "listen listening = native_listen"
    by (simp add: listening_def)
  have before: "native_event (0::nat) ''NewOutput'' ''{}''
      (engine (constructed ([] :: nat listener list))) = []"
    by (simp add: constructed_def native_event_def)
  have handler: "messageHandler (instances (constructed ([] :: nat listener list)) ! 0) = 0"
    by (simp add: constructed_def)
  from listener_invoked_once [OF inst types' native, of "Ref 9" "''{}''"]
  have "native_event 0 ''NewOutput'' ''{}''
       (engine (snd (MessageHandler_listen listening 0 (Ref 8) (Ref 9) (constructed [])))) =
     [Invoke (Ref 9) None (Some ''{}'')]"
    by (simp add: before handler)
  with inst types' native show ?thesis
    by (intro conjI)
qed

subsection \<open>What crosses the boundary at construction\<close>

text \<open>
  C8. In the text passed to \<open>messageHandlerNew\<close>, \<open>clientOptions\<close> and
  \<open>secretManager\<close> are encoded twice: each is serialized to a JSON text, and that text
  is a string value of the bundle. The reader of the bundle finds a string under each
  of the two keys, not an object.
\<close>

theorem options_double_encoded:
  assumes "AccountManagerOptions (heap w) options"
    and "SerializeJSONProperty (property_tree (heap w) options ''clientOptions'') = Some c"
    and "SerializeJSONProperty (property_tree (heap w) options ''secretManager'') = Some s"
  shows "calls (snd (MessageHandler_constructor B options w)) =
      calls w @ [MessageHandlerNew (String (bundle_text (heap w) options))] \<and>
    received (bundle_text (heap w) options) ''clientOptions'' = Some (TString c) \<and>
    received (bundle_text (heap w) options) ''secretManager'' = Some (TString s)"
  using constructor_calls [OF assms(1), of B] assms(2,3)
  by (simp add: received_bundle(2) [OF assms(1)] stringified_def)

text \<open>
  An instance: the configuration at address 0. The string under \<open>clientOptions\<close> is
  itself a JSON text, of the object \<open>{localPow: true}\<close>.
\<close>

theorem options_double_encoded_witness:
  \<open>AccountManagerOptions (heap (fresh (0::nat))) (Ref 0) \<and>
   SerializeJSONProperty (property_tree (heap (fresh (0::nat))) (Ref 0) ''clientOptions'') =
     Some ''{"localPow":true}'' \<and>
   SerializeJSONProperty (property_tree (heap (fresh (0::nat))) (Ref 0) ''secretManager'') =
     Some ''{"mnemonic":"abc"}'' \<and>
   received (bundle_text (heap (fresh (0::nat))) (Ref 0)) ''clientOptions'' =
     Some (TString ''{"localPow":true}'') \<and>
   received (bundle_text (heap (fresh (0::nat))) (Ref 0)) ''secretManager'' =
     Some (TString ''{"mnemonic":"abc"}'') \<and>
   JSON_parse ''{"localPow":true}'' = Inr (TObject [(''localPow'', TBoolean True)])\<close>
proof -
  have h: "heap (fresh (0::nat)) = example_heap"
    by (simp add: fresh_def)
  have valid: "AccountManagerOptions (heap (fresh (0::nat))) (Ref 0)"
    by (simp only: h example_valid)
  have c: \<open>SerializeJSONProperty (property_tree (heap (fresh (0::nat))) (Ref 0) ''clientOptions'') =
      Some ''{"localPow":true}''\<close>
    by (simp only: h example_options)
  have s: \<open>SerializeJSONProperty (property_tree (heap (fresh (0::nat))) (Ref 0) ''secretManager'') =
      Some ''{"mnemonic":"abc"}''\<close>
    by (simp only: h example_options)
  have inner: \<open>JSON_parse ''{"localPow":true}'' = Inr (TObject [(''localPow'', TBoolean True)])\<close>
    by code_simp
  from valid c s options_double_encoded [OF valid c s, of answering] inner show ?thesis
    by blast
qed

text \<open>
  C9. When the configuration has no \<open>clientOptions\<close>, or has it \<open>undefined\<close>, the
  inner \<open>JSON.stringify\<close> gives \<open>undefined\<close> and the bundle that the native engine
  reads has no key \<open>clientOptions\<close>; the same for \<open>secretManager\<close>.
\<close>

theorem absent_options_omitted:
  assumes "AccountManagerOptions (heap w) options"
  shows "calls (snd (MessageHandler_constructor B options w)) =
      calls w @ [MessageHandlerNew (String (bundle_text (heap w) options))] \<and>
    (Get (heap w) options ''clientOptions'' = Inr Undefined \<longrightarrow>
       JSON_stringify (heap w) Undefined = Inr Undefined \<and>
       (\<exists>ks. received_keys (bundle_text (heap w) options) = Some ks \<and>
          ''clientOptions'' \<notin> set ks)) \<and>
    (Get (heap w) options ''secretManager'' = Inr Undefined \<longrightarrow>
       JSON_stringify (heap w) Undefined = Inr Undefined \<and>
       (\<exists>ks. received_keys (bundle_text (heap w) options) = Some ks \<and>
          ''secretManager'' \<notin> set ks))"
  using constructor_calls [OF assms, of B]
  by (simp add: received_bundle(1) [OF assms] JSON_stringify_def property_tree_def
      stringified_def)

text \<open>An instance: the configuration \<open>{storagePath: 'db'}\<close> at address 3.\<close>

theorem absent_options_omitted_witness:
  "AccountManagerOptions (heap (fresh (0::nat))) (Ref 3) \<and>
   Get (heap (fresh (0::nat))) (Ref 3) ''clientOptions'' = Inr Undefined \<and>
   Get (heap (fresh (0::nat))) (Ref 3) ''secretManager'' = Inr Undefined \<and>
   JSON_stringify (heap (fresh (0::nat))) Undefined = Inr Undefined \<and>
   received_keys (bundle_text (heap (fresh (0::nat))) (Ref 3)) = Some [''storagePath'']"
proof -
  have h: "heap (fresh (0::nat)) = example_heap"
    by (simp add: fresh_def)
  have valid: "AccountManagerOptions example_heap (Ref 3)"
    by code_simp
  have absent: "Get example_heap (Ref 3) ''clientOptions'' = Inr Undefined"
    "Get example_heap (Ref 3) ''secretManager'' = Inr Undefined"
    by code_simp+
  have keys: "received_keys (bundle_text example_heap (Ref 3)) = Some [''storagePath'']"
    by code_simp
  from absent_options_omitted [of "fresh (0::nat)" "Ref 3" answering] valid absent keys
  show ?thesis
    by (simp add: h del: Get.simps)
qed

text \<open>
  C10. The bundle that the native engine reads has no key but \<open>storagePath\<close>,
  \<open>clientOptions\<close> and \<open>secretManager\<close>: any other property of the configuration
  stays behind.
\<close>

theorem only_three_keys_cross:
  assumes "AccountManagerOptions (heap w) options"
  shows "calls (snd (MessageHandler_constructor B options w)) =
      calls w @ [MessageHandlerNew (String (bundle_text (heap w) options))] \<and>
    (\<exists>ks. received_keys (bundle_text (heap w) options) = Some ks \<and>
       set ks \<subseteq> {''storagePath'', ''clientOptions'', ''secretManager''})"
  using constructor_calls [OF assms, of B]
  by (auto simp: received_bundle(1) [OF assms])

text \<open>An instance: the configuration at address 0, which has a property \<open>extra\<close>.\<close>

theorem only_three_keys_cross_witness:
  "AccountManagerOptions (heap (fresh (0::nat))) (Ref 0) \<and>
   Get (heap (fresh (0::nat))) (Ref 0) ''extra'' = Inr (Number (Integer 1)) \<and>
   received_keys (bundle_text (heap (fresh (0::nat))) (Ref 0)) =
     Some [''storagePath'', ''clientOptions'', ''secretManager'']"
proof -
  have h: "heap (fresh (0::nat)) = example_heap"
    by (simp add: fresh_def)
  have extra: "Get example_heap (Ref 0) ''extra'' = Inr (Number (Integer 1))"
    by code_simp
  have keys: "received_keys (bundle_text example_heap (Ref 0)) =
      Some [''storagePath'', ''clientOptions'', ''secretManager'']"
    by code_simp
  from only_three_keys_cross [of "fresh (0::nat)" "Ref 0" answering] example_valid extra keys
  show ?thesis
    by (simp add: h del: Get.simps)
qed

end
